theory Spec2Isabelle
  imports Main "HOL-Library.Multiset" "HOL-Library.AList" "HOL-Library.Char_ord"
    "HOL-Library.List_Lexorder"
begin

section \<open>JavaScript array and string primitives used by the sources\<close>

text \<open>
  \<^verbatim>\<open>Array.prototype.slice(start, end)\<close> on integer arguments: a negative index counts
  from the end of the array, every index is clamped to the array, and an end at or before
  the start gives the empty array.
\<close>

definition relIndex :: "int \<Rightarrow> nat \<Rightarrow> nat" where
  "relIndex i n = (if i < 0 then nat (max (int n + i) 0) else min (nat i) n)"

definition slice :: "'a list \<Rightarrow> int \<Rightarrow> int \<Rightarrow> 'a list" where
  "slice xs start end =
     (let n = length xs; k = relIndex start n; final = relIndex end n
      in take (final - k) (drop k xs))"

section \<open>Diff classifier: \<^verbatim>\<open>DiffGenerator.limitChanges\<close> (src/diff/generator.ts)\<close>

datatype changeKind = Added | Removed | Modified | Moved

text \<open>
  \<^verbatim>\<open>ContentChange\<close>, \<^verbatim>\<open>StyleChange\<close> and \<^verbatim>\<open>StructureChange\<close> (src/types/diff.ts) share the
  fields \<^verbatim>\<open>priority\<close>, \<^verbatim>\<open>element\<close> and \<^verbatim>\<open>change\<close>; each adds fields of its own.
  Priorities are the integer constants 1 to 5 that \<^verbatim>\<open>classifyChanges\<close> assigns.
\<close>

record changeBase =
  priority :: int
  element :: string
  change :: changeKind

record contentChange = changeBase +
  before :: "string option"
  after :: "string option"
  "context" :: "string option"

record styleChange = changeBase +
  attribute :: string
  styleBefore :: "string option"
  styleAfter :: "string option"

record structureChange = changeBase +
  attributes :: "(string \<times> string) list"

record changeClassification =
  content :: "contentChange list"
  style :: "styleChange list"
  "structure" :: "structureChange list"

record diffSummary =
  totalChanges :: nat
  contentChanges :: nat
  styleChanges :: nat
  structureChanges :: nat
  highestPriority :: int

record diffMetadata =
  generatedAt :: string
  generationTime :: nat
  isPartial :: bool

record detailedDiff =
  diffUrl :: string
  diffDate :: string
  previousHash :: string
  currentHash :: string
  classification :: changeClassification
  summary :: diffSummary
  generation :: diffMetadata

text \<open>
  \<^verbatim>\<open>xs.sort((a, b) => b.priority - a.priority)\<close>: the sort of ECMAScript is stable, so the
  result is the one stable arrangement by descending priority, which is what the stable
  insertion sort \<^const>\<open>sort_key\<close> computes on the negated priority.
\<close>

definition prioritySort :: "('a changeBase_scheme) list \<Rightarrow> ('a changeBase_scheme) list" where
  "prioritySort xs = sort_key (\<lambda>c. - priority c) xs"

text \<open>
  \<^verbatim>\<open>Math.floor(maxChanges * 0.6)\<close> and \<^verbatim>\<open>Math.floor(maxChanges * 0.2)\<close> for an integer
  \<^verbatim>\<open>maxChanges\<close>, computed exactly: three fifths and one fifth, rounded down.
\<close>

definition contentShare :: "int \<Rightarrow> int" where
  "contentShare maxChanges = (maxChanges * 3) div 5"

definition minorShare :: "int \<Rightarrow> int" where
  "minorShare maxChanges = maxChanges div 5"

definition limitChanges :: "detailedDiff \<Rightarrow> int \<Rightarrow> detailedDiff" where
  "limitChanges diff maxChanges =
     (let c = slice (prioritySort (content (classification diff))) 0 (contentShare maxChanges);
          s = slice (prioritySort (style (classification diff))) 0 (minorShare maxChanges);
          t = slice (prioritySort (structure (classification diff))) 0 (minorShare maxChanges)
      in diff\<lparr>classification := \<lparr>content = c, style = s, structure = t\<rparr>,
               summary := (summary diff)\<lparr>contentChanges := length c,
                                          styleChanges := length s,
                                          structureChanges := length t,
                                          totalChanges := length c + length s + length t\<rparr>\<rparr>)"

text \<open>
  What the claim asks of one category: the retained changes are taken from the original
  ones, and every change that was dropped (the original changes less the retained ones,
  counted with multiplicity) has a priority no higher than any retained change.
\<close>

definition keepsHighest :: "('a changeBase_scheme) list \<Rightarrow> ('a changeBase_scheme) list \<Rightarrow> bool" where
  "keepsHighest original kept \<longleftrightarrow>
     mset kept \<subseteq># mset original \<and>
     (\<forall>a \<in> set kept. \<forall>b \<in># mset original - mset kept. priority b \<le> priority a)"

text \<open>A diff with three content changes, two style changes and one structure change.\<close>

definition sampleDiff :: detailedDiff where
  "sampleDiff =
    \<lparr>diffUrl = ''https://example.com/a'', diffDate = ''2026-02-22'', previousHash = ''p'', currentHash = ''c'',
     classification =
       \<lparr>content = [\<lparr>priority = 3, element = ''text'', change = Modified, before = None, after = None, context = None\<rparr>,
                   \<lparr>priority = 5, element = ''title'', change = Modified, before = None, after = None, context = None\<rparr>,
                   \<lparr>priority = 4, element = ''h1'', change = Added, before = None, after = None, context = None\<rparr>],
        style = [\<lparr>priority = 1, element = ''inline'', change = Modified, attribute = ''style'', styleBefore = None, styleAfter = None\<rparr>,
                 \<lparr>priority = 2, element = ''style'', change = Added, attribute = ''css'', styleBefore = None, styleAfter = None\<rparr>],
        structure = [\<lparr>priority = 2, element = ''nav'', change = Added, attributes = []\<rparr>]\<rparr>,
     summary = \<lparr>totalChanges = 6, contentChanges = 3, styleChanges = 2, structureChanges = 1, highestPriority = 5\<rparr>,
     generation = \<lparr>generatedAt = ''t'', generationTime = 0, isPartial = False\<rparr>\<rparr>"

section \<open>Regular expressions of the noise patterns\<close>

text \<open>
  Strings are lists of 8-bit characters: the model covers JavaScript strings whose code
  units are below 256. The regular expressions of the source use literal characters,
  character classes, sequence, alternation, greedy repetition, the word boundary
  \<^verbatim>\<open>\b\<close> and the lookahead \<^verbatim>\<open>(?=...)\<close>.
\<close>

datatype regex =
    Atom "char list"
  | NotAtom "char list"
  | Eps
  | Seq regex regex
  | Alt regex regex
  | Star regex
  | WordBoundary
  | Ahead regex








section \<open>The noise patterns of \<^verbatim>\<open>ContentComparer\<close> (src/diff/comparer.ts)\<close>

definition seqs :: "regex list \<Rightarrow> regex" where
  "seqs rs = foldr Seq rs Eps"




fun exactly :: "nat \<Rightarrow> regex \<Rightarrow> regex" where
  "exactly 0 r = Eps"
| "exactly (Suc n) r = Seq r (exactly n r)"








definition spaceChars :: "char list" where
  "spaceChars = [CHR 0x09, CHR 0x0A, CHR 0x0B, CHR 0x0C, CHR 0x0D, CHR 0x20, CHR 0xA0]"









section \<open>\<^verbatim>\<open>ContentComparer.normalizeContent\<close> (src/diff/comparer.ts)\<close>

definition isSpace :: "char \<Rightarrow> bool" where
  "isSpace c \<longleftrightarrow> c \<in> set spaceChars"

text \<open>\<^verbatim>\<open>replace(/\s+/g, ' ')\<close>: every run of white space becomes one space.\<close>

function collapseSpaces :: "string \<Rightarrow> string" where
  "collapseSpaces [] = []"
| "collapseSpaces (c # cs) =
     (if isSpace c then CHR '' '' # collapseSpaces (dropWhile isSpace cs)
      else c # collapseSpaces cs)"
  by pat_completeness auto
termination
  by (relation "measure length") (auto simp: length_dropWhile_le less_Suc_eq_le)











section \<open>\<^verbatim>\<open>ContentNormalizer.normalizeHTML\<close> (src/diff/normalizer.ts)\<close>








text \<open>
  \<^verbatim>\<open>replace(/\s*([{}[\](),;:])\s*/g, '$1')\<close>: where the white space from a position on
  is followed by one of the nine punctuation characters, that white space, the character
  and the white space after it are replaced by the character, and the scan goes on after
  them.
\<close>

definition isPunct :: "char \<Rightarrow> bool" where
  "isPunct c \<longleftrightarrow> c \<in> set ''{}[](),;:''"






text \<open>
  A pattern needs a set of characters when each of its matches, a lookahead included,
  reads a character of the set; a string without any character of the set then has no
  match.
\<close>

fun needs :: "char list \<Rightarrow> regex \<Rightarrow> bool" where
  "needs S (Atom cs) = list_all (\<lambda>c. c \<in> set S) cs"
| "needs S (NotAtom cs) = False"
| "needs S Eps = False"
| "needs S (Seq a b) = (needs S a \<or> needs S b)"
| "needs S (Alt a b) = (needs S a \<and> needs S b)"
| "needs S (Star a) = False"
| "needs S WordBoundary = False"
| "needs S (Ahead a) = needs S a"

definition lacks :: "char list \<Rightarrow> string \<Rightarrow> bool" where
  "lacks S s \<longleftrightarrow> list_all (\<lambda>c. c \<notin> set S) s"



text \<open>
  What the punctuation stage produces: no white space next to a punctuation character.
  \<open>punctAhead\<close> says that the white space from a position on is followed by a
  punctuation character, that is, that the pattern matches at the position.
\<close>

fun tight :: "string \<Rightarrow> bool" where
  "tight (a # b # cs) =
     (\<not> (isSpace a \<and> isPunct b) \<and> \<not> (isPunct a \<and> isSpace b) \<and> tight (b # cs))"
| "tight cs = True"



section \<open>The key-value store and the JSON documents kept in it\<close>

datatype json =
    JNull
  | JBool bool
  | JNum int
  | JStr string
  | JArr "json list"
  | JObj "(string \<times> json) list"

text \<open>
  A stored value is a string. It is represented by what \<^verbatim>\<open>JSON.parse\<close> makes of it:
  \<open>JsonText j\<close> is the text \<^verbatim>\<open>JSON.stringify(j)\<close>, which parses back to \<open>j\<close>;
  \<open>PlainText s\<close> is the string \<open>s\<close> itself, used for page content (never parsed by
  the code) and for any string that \<^verbatim>\<open>JSON.parse\<close> rejects.
\<close>

datatype kvValue = JsonText json | PlainText string

type_synonym kvNamespace = "(string \<times> kvValue) list"

definition kvGet :: "kvNamespace \<Rightarrow> string \<Rightarrow> kvValue option" where
  "kvGet ns key = map_of ns key"

definition kvPut :: "kvNamespace \<Rightarrow> string \<Rightarrow> kvValue \<Rightarrow> kvNamespace" where
  "kvPut ns key v = AList.update key v ns"

definition kvDelete :: "kvNamespace \<Rightarrow> string \<Rightarrow> kvNamespace" where
  "kvDelete ns key = AList.delete key ns"

text \<open>\<^verbatim>\<open>if (!data)\<close> on the result of \<^verbatim>\<open>kv.get\<close>: only the empty string is falsy.\<close>

fun truthyText :: "kvValue \<Rightarrow> bool" where
  "truthyText (JsonText j) = True"
| "truthyText (PlainText s) = (s \<noteq> [])"

text \<open>\<^verbatim>\<open>JSON.parse\<close>, with \<open>None\<close> for the exception it throws.\<close>

fun jsonParse :: "kvValue \<Rightarrow> json option" where
  "jsonParse (JsonText j) = Some j"
| "jsonParse (PlainText s) = None"

text \<open>
  Reading a property of a parsed value: \<open>None\<close> is the TypeError of reading a property
  of \<^verbatim>\<open>null\<close>, \<open>Some None\<close> is \<^verbatim>\<open>undefined\<close> (a missing property, or any property
  of a number, string, boolean or array that the code asks for).
\<close>

fun getProp :: "json \<Rightarrow> string \<Rightarrow> json option option" where
  "getProp JNull name = None"
| "getProp (JObj props) name = Some (map_of props name)"
| "getProp j name = Some None"

text \<open>Truthiness of a JavaScript value (\<open>None\<close> is \<^verbatim>\<open>undefined\<close>), and \<^verbatim>\<open>a || b\<close>.\<close>

fun truthy :: "json option \<Rightarrow> bool" where
  "truthy None = False"
| "truthy (Some JNull) = False"
| "truthy (Some (JBool b)) = b"
| "truthy (Some (JNum n)) = (n \<noteq> 0)"
| "truthy (Some (JStr s)) = (s \<noteq> [])"
| "truthy (Some (JArr xs)) = True"
| "truthy (Some (JObj props)) = True"

definition jsOr :: "json option \<Rightarrow> json option \<Rightarrow> json option" where
  "jsOr a b = (if truthy a then a else b)"

section \<open>Backup metadata and results (src/types/site.ts)\<close>

record backupMetadata =
  metaUrl :: string
  timestamp :: string
  hash :: string
  normalizedHash :: "string option"
  status :: nat
  contentType :: string
  etag :: "string option"
  byteSize :: nat
  fetchTime :: nat
  redirectCount :: "nat option"

record backupResult =
  url :: string
  success :: bool
  metadata :: "backupMetadata option"
  pageContent :: "string option"
  error :: "string option"

text \<open>
  \<^verbatim>\<open>JSON.stringify(metadata)\<close> as a document: the fields in the order of the object
  literal in \<^verbatim>\<open>fetchUrlWithRetries\<close>, a field that is \<^verbatim>\<open>undefined\<close> left out.
\<close>

definition optField :: "string \<Rightarrow> ('a \<Rightarrow> json) \<Rightarrow> 'a option \<Rightarrow> (string \<times> json) list" where
  "optField name f v = (case v of None \<Rightarrow> [] | Some x \<Rightarrow> [(name, f x)])"

definition metadataJson :: "backupMetadata \<Rightarrow> json" where
  "metadataJson m =
     JObj ([(''url'', JStr (metaUrl m)), (''timestamp'', JStr (timestamp m)),
            (''hash'', JStr (hash m))]
           @ optField ''normalizedHash'' JStr (normalizedHash m)
           @ [(''status'', JNum (int (status m))), (''contentType'', JStr (contentType m))]
           @ optField ''etag'' JStr (etag m)
           @ [(''size'', JNum (int (byteSize m))), (''fetchTime'', JNum (int (fetchTime m)))]
           @ optField ''redirectCount'' (\<lambda>n. JNum (int n)) (redirectCount m))"

section \<open>Change detector: \<^verbatim>\<open>BackupFetcher.detectChanges\<close> (src/backup/fetcher.ts)\<close>

text \<open>
  \<^verbatim>\<open>getUrlHash\<close>: the first 16 characters of the hexadecimal SHA-256 digest of the URL.
  The digest is a parameter of the model.
\<close>

definition getUrlHash :: "(string \<Rightarrow> string) \<Rightarrow> string \<Rightarrow> string" where
  "getUrlHash sha256 u = take 16 (sha256 u)"

definition latestKey :: "(string \<Rightarrow> string) \<Rightarrow> string \<Rightarrow> string \<Rightarrow> string" where
  "latestKey sha256 site u = ''latest:'' @ site @ '':'' @ getUrlHash sha256 u"

text \<open>
  \<^verbatim>\<open>result.metadata.normalizedHash || result.metadata.hash\<close> on the typed metadata of a
  fetched page: a missing or empty normalized hash falls back to the raw hash.
\<close>

definition comparableHash :: "backupMetadata \<Rightarrow> string" where
  "comparableHash m =
     (case normalizedHash m of
        None \<Rightarrow> hash m
      | Some h \<Rightarrow> if h \<noteq> [] then h else hash m)"

text \<open>
  \<^verbatim>\<open>previous.normalizedHash || previous.hash\<close> on a parsed document; \<open>None\<close> when
  \<^verbatim>\<open>previous\<close> is \<^verbatim>\<open>null\<close> and the property access throws.
\<close>

definition prevComparableHash :: "json \<Rightarrow> json option option" where
  "prevComparableHash previous =
     (case getProp previous ''normalizedHash'' of
        None \<Rightarrow> None
      | Some n \<Rightarrow>
          (case getProp previous ''hash'' of
             None \<Rightarrow> None
           | Some h \<Rightarrow> Some (jsOr n h)))"

fun detectChanges :: "(string \<Rightarrow> string) \<Rightarrow> kvNamespace \<Rightarrow> string \<Rightarrow> backupResult list \<Rightarrow> string list" where
  "detectChanges sha256 ns site [] = []"
| "detectChanges sha256 ns site (result # results) =
     (case metadata result of
        None \<Rightarrow> detectChanges sha256 ns site results
      | Some m \<Rightarrow>
          (case kvGet ns (latestKey sha256 site (url result)) of
             None \<Rightarrow> url result # detectChanges sha256 ns site results
           | Some previousMetadata \<Rightarrow>
               if truthyText previousMetadata then
                 (case jsonParse previousMetadata of
                    None \<Rightarrow> url result # detectChanges sha256 ns site results
                  | Some previous \<Rightarrow>
                      (case prevComparableHash previous of
                         None \<Rightarrow> url result # detectChanges sha256 ns site results
                       | Some prevHash \<Rightarrow>
                           if prevHash \<noteq> Some (JStr (comparableHash m))
                           then url result # detectChanges sha256 ns site results
                           else detectChanges sha256 ns site results))
               else url result # detectChanges sha256 ns site results))"

text \<open>A fetched page with given raw and normalized hashes, and a stand-in for the digest.\<close>

definition sampleMeta :: "string \<Rightarrow> string \<Rightarrow> backupMetadata" where
  "sampleMeta raw norm =
     \<lparr>metaUrl = ''https://example.com/page1'', timestamp = ''2026-02-22T00:00:00.000Z'',
      hash = raw, normalizedHash = Some norm, status = 200, contentType = ''text/html'',
      etag = None, byteSize = 28, fetchTime = 12, redirectCount = Some 0\<rparr>"

definition sampleResult :: "string \<Rightarrow> string \<Rightarrow> backupResult" where
  "sampleResult raw norm =
     \<lparr>url = ''https://example.com/page1'', success = True,
      metadata = Some (sampleMeta raw norm), pageContent = Some ''<html></html>'', error = None\<rparr>"

definition sampleDigest :: "string \<Rightarrow> string" where
  "sampleDigest u = ''0123456789abcdef0123'' @ u"

section \<open>The environment of an invocation\<close>

text \<open>
  What \<^verbatim>\<open>fast-xml-parser\<close> returns, as far as \<^verbatim>\<open>parseSitemap\<close> looks at it: a
  \<^verbatim>\<open>urlset\<close> with its \<^verbatim>\<open>url\<close> entries, else a \<^verbatim>\<open>sitemapindex\<close> with its \<^verbatim>\<open>sitemap\<close>
  entries, else anything else. An entry is its \<^verbatim>\<open>loc\<close>, \<open>None\<close> when it has none.
\<close>

datatype xmlDoc = UrlSet "string option list" | SitemapIndex "string option list" | OtherXml

record request =
  reqUrl :: string
  reqHeaders :: "(string \<times> string) list"
  redirectManual :: bool

record response =
  respStatus :: nat
  statusText :: string
  respHeaders :: "(string \<times> string) list"
  respBody :: string
  redirected :: bool
  respUrl :: string

definition ok :: "response \<Rightarrow> bool" where
  "ok r \<longleftrightarrow> 200 \<le> respStatus r \<and> respStatus r \<le> 299"

text \<open>\<^verbatim>\<open>headers.get(name) || undefined\<close>: a missing or empty header is \<open>None\<close>.\<close>

definition headerGet :: "response \<Rightarrow> string \<Rightarrow> string option" where
  "headerGet r name =
     (case map_of (respHeaders r) name of
        None \<Rightarrow> None
      | Some v \<Rightarrow> if v = [] then None else Some v)"

text \<open>
  Everything outside the repository that an invocation calls: the network
  (\<^verbatim>\<open>fetch\<close>, \<open>Inl\<close> the message of the error it throws, a timeout included), the XML
  parser (\<open>None\<close> when it throws), SHA-256 as a hexadecimal string,
  \<^verbatim>\<open>ContentComparer.calculateNormalizedHash\<close>, \<^verbatim>\<open>new RegExp(pattern, 'i').test(url)\<close>
  (\<open>None\<close> for an invalid pattern), \<^verbatim>\<open>new URL(location, base).href\<close> (\<open>None\<close> when
  it throws), the clock (\<^verbatim>\<open>today\<close> as YYYY-MM-DD, the current instant in ISO format, the
  date \<^verbatim>\<open>retentionDays\<close> days ago, the milliseconds elapsed), and \<^verbatim>\<open>Math.round\<close> of the
  floating-point percentage.
\<close>

record env =
  fetch :: "request \<Rightarrow> string + response"
  parseXml :: "string \<Rightarrow> xmlDoc option"
  sha256 :: "string \<Rightarrow> string"
  calculateNormalizedHash :: "string \<Rightarrow> string list option \<Rightarrow> string"
  regExpTest :: "string \<Rightarrow> string \<Rightarrow> bool option"
  resolveUrl :: "string \<Rightarrow> string \<Rightarrow> string option"
  today :: string
  nowIso :: string
  cutoffString :: "nat \<Rightarrow> string"
  elapsed :: nat
  roundPercent :: "int \<Rightarrow> nat \<Rightarrow> int"

text \<open>
  The state an invocation changes: the key-value namespace, and the URLs passed to
  \<^verbatim>\<open>fetch\<close> so far, in call order.
\<close>

record world =
  kv :: kvNamespace
  fetchLog :: "string list"

text \<open>
  The outcome of a call that may not return: \<open>Returned x w\<close> is the value and the state
  after it; \<open>Running w\<close> says that the call has not returned, \<open>w\<close> being the state
  reached when the model stopped following it.
\<close>

datatype 'a outcome = Returned 'a world | Running world

definition doFetch :: "env \<Rightarrow> request \<Rightarrow> world \<Rightarrow> (string + response) \<times> world" where
  "doFetch E req w = (fetch E req, w\<lparr>fetchLog := fetchLog w @ [reqUrl req]\<rparr>)"

definition put :: "string \<Rightarrow> kvValue \<Rightarrow> world \<Rightarrow> world" where
  "put key v w = w\<lparr>kv := kvPut (kv w) key v\<rparr>"

definition del :: "string \<Rightarrow> world \<Rightarrow> world" where
  "del key w = w\<lparr>kv := kvDelete (kv w) key\<rparr>"

section \<open>Site configuration and batch results (src/types/site.ts, src/backup/fetcher.ts)\<close>

record fetchOptions =
  timeout :: nat
  retries :: nat
  concurrency :: nat

record changeThreshold =
  minChangeSize :: "nat option"
  ignorePatterns :: "string list option"

record siteConfig =
  siteId :: string
  name :: string
  baseUrl :: string
  sitemapUrl :: "string option"
  urls :: "string list option"
  retentionDays :: nat
  schedule :: string
  fetchOpts :: fetchOptions
  threshold :: changeThreshold
  excludePatterns :: "string list option"

record batchOptions =
  optBatchSize :: "int option"
  optBatchOffset :: "int option"
  continueFromLast :: bool

record progressBlock =
  completed :: int
  total :: nat
  percentComplete :: int

record batchedBackupResult =
  totalUrls :: nat
  processedInBatch :: nat
  successfulBackups :: nat
  failedBackups :: nat
  changedUrls :: "string list"
  executionTime :: nat
  errors :: "string list"
  results :: "backupResult list"
  batchOffset :: int
  batchSize :: int
  hasMore :: bool
  nextOffset :: "int option"
  progress :: progressBlock

definition DEFAULT_BATCH_SIZE :: int where "DEFAULT_BATCH_SIZE = 25"
definition MAX_BATCH_SIZE :: int where "MAX_BATCH_SIZE = 30"

section \<open>Progress, full-scan and sitemap state records\<close>

definition progressKey :: "string \<Rightarrow> string" where
  "progressKey site = ''batch_progress:'' @ site"

definition fullScanKey :: "string \<Rightarrow> string" where
  "fullScanKey site = ''full_scan:'' @ site"

definition sitemapStateKey :: "string \<Rightarrow> string" where
  "sitemapStateKey site = ''sitemap_state:'' @ site"

definition progressJson :: "int \<Rightarrow> nat \<Rightarrow> string \<Rightarrow> json" where
  "progressJson next n lastRunTime =
     JObj [(''nextOffset'', JNum next), (''totalUrls'', JNum (int n)),
           (''lastRunTime'', JStr lastRunTime)]"

definition saveBatchProgress :: "string \<Rightarrow> int \<Rightarrow> nat \<Rightarrow> string \<Rightarrow> world \<Rightarrow> world" where
  "saveBatchProgress site next n lastRunTime w =
     put (progressKey site) (JsonText (progressJson next n lastRunTime)) w"

text \<open>
  \<^verbatim>\<open>loadBatchProgress\<close> followed by the test \<^verbatim>\<open>progress && progress.nextOffset !== null\<close>:
  the saved offset, or \<open>None\<close> when there is no value, the value is empty or does not
  parse, the document is falsy, or its \<^verbatim>\<open>nextOffset\<close> is \<^verbatim>\<open>null\<close>. Only
  \<^verbatim>\<open>saveBatchProgress\<close> writes this key, always with a number for \<^verbatim>\<open>nextOffset\<close>; a
  document with any other \<^verbatim>\<open>nextOffset\<close> is taken as no progress.
\<close>

definition savedOffset :: "world \<Rightarrow> string \<Rightarrow> int option" where
  "savedOffset w site =
     (case kvGet (kv w) (progressKey site) of
        None \<Rightarrow> None
      | Some data \<Rightarrow>
          if \<not> truthyText data then None
          else (case jsonParse data of
                  None \<Rightarrow> None
                | Some saved \<Rightarrow>
                    if \<not> truthy (Some saved) then None
                    else (case getProp saved ''nextOffset'' of
                            Some (Some (JNum next)) \<Rightarrow> Some next
                          | _ \<Rightarrow> None)))"

definition clearBatchProgress :: "string \<Rightarrow> world \<Rightarrow> world" where
  "clearBatchProgress site w = del (progressKey site) w"

definition fullScanJson :: "string \<Rightarrow> string \<Rightarrow> nat \<Rightarrow> json" where
  "fullScanJson d completedAt n =
     JObj [(''date'', JStr d), (''completedAt'', JStr completedAt), (''totalUrls'', JNum (int n))]"

definition setFullScanState :: "string \<Rightarrow> string \<Rightarrow> string \<Rightarrow> nat \<Rightarrow> world \<Rightarrow> world" where
  "setFullScanState site d completedAt n w =
     put (fullScanKey site) (JsonText (fullScanJson d completedAt n)) w"

text \<open>\<^verbatim>\<open>getFullScanState\<close> followed by \<^verbatim>\<open>fullScan?.date === today\<close>.\<close>

definition fullScanIsToday :: "env \<Rightarrow> world \<Rightarrow> string \<Rightarrow> bool" where
  "fullScanIsToday E w site =
     (case kvGet (kv w) (fullScanKey site) of
        None \<Rightarrow> False
      | Some raw \<Rightarrow>
          truthyText raw \<and>
          (case jsonParse raw of
             None \<Rightarrow> False
           | Some fullScan \<Rightarrow>
               (case getProp fullScan ''date'' of
                  Some (Some (JStr d)) \<Rightarrow> d = today E
                | _ \<Rightarrow> False)))"

definition recordSitemapState :: "env \<Rightarrow> string \<Rightarrow> response \<Rightarrow> string \<Rightarrow> world \<Rightarrow> world" where
  "recordSitemapState E site resp xmlText w =
     put (sitemapStateKey site)
       (JsonText (JObj (optField ''etag'' JStr (headerGet resp ''etag'')
                        @ optField ''lastModified'' JStr (headerGet resp ''last-modified'')
                        @ [(''contentHash'', JStr (sha256 E xmlText)),
                           (''checkedAt'', JStr (nowIso E))]))) w"

section \<open>Sitemap change check and sitemap resolution (src/backup/fetcher.ts)\<close>

text \<open>A conditional request header is sent for a stored validator that is a non-empty string.\<close>

definition condHeader :: "string \<Rightarrow> json option \<Rightarrow> (string \<times> string) list" where
  "condHeader header v =
     (case v of Some (JStr s) \<Rightarrow> if s \<noteq> [] then [(header, s)] else [] | _ \<Rightarrow> [])"

text \<open>\<^verbatim>\<open>{...existing, checkedAt: now}\<close>.\<close>

fun withCheckedAt :: "json \<Rightarrow> string \<Rightarrow> json" where
  "withCheckedAt (JObj props) t = JObj (AList.update ''checkedAt'' (JStr t) props)"
| "withCheckedAt j t = JObj [(''checkedAt'', JStr t)]"

text \<open>
  \<^verbatim>\<open>hasSitemapChanged\<close>. Every exception (a stored state that does not parse, a property
  read of \<^verbatim>\<open>null\<close>, a failed fetch) is caught and answered with \<^verbatim>\<open>true\<close>.
\<close>

definition hasSitemapChanged :: "env \<Rightarrow> string \<Rightarrow> string \<Rightarrow> world \<Rightarrow> bool \<times> world" where
  "hasSitemapChanged E site sitemapLoc w =
     (let stateKey = sitemapStateKey site;
          parsed = (case kvGet (kv w) stateKey of
                      None \<Rightarrow> Some (JObj [])
                    | Some existingRaw \<Rightarrow>
                        if truthyText existingRaw then jsonParse existingRaw else Some (JObj []))
      in case parsed of
           None \<Rightarrow> (True, w)
         | Some existing \<Rightarrow>
             (case (getProp existing ''etag'', getProp existing ''lastModified'',
                    getProp existing ''contentHash'') of
                (Some etagV, Some lastModifiedV, Some contentHashV) \<Rightarrow>
                  (case doFetch E \<lparr>reqUrl = sitemapLoc,
                                    reqHeaders = condHeader ''If-None-Match'' etagV
                                               @ condHeader ''If-Modified-Since'' lastModifiedV,
                                    redirectManual = False\<rparr> w of
                     (Inl err, w1) \<Rightarrow> (True, w1)
                   | (Inr resp, w1) \<Rightarrow>
                       if respStatus resp = 304 then (False, w1)
                       else if \<not> ok resp then (True, w1)
                       else
                         (let xmlText = respBody resp; newHash = sha256 E xmlText
                          in if \<not> truthy etagV \<and> \<not> truthy lastModifiedV \<and> truthy contentHashV
                                \<and> contentHashV = Some (JStr newHash)
                             then (False, put stateKey (JsonText (withCheckedAt existing (nowIso E))) w1)
                             else (True, recordSitemapState E site resp xmlText w1)))
              | _ \<Rightarrow> (True, w)))"

text \<open>\<^verbatim>\<open>urls.map(item => item.loc).filter(Boolean)\<close>.\<close>

definition truthyLocs :: "string option list \<Rightarrow> string list" where
  "truthyLocs entries =
     List.map_filter (\<lambda>l. case l of None \<Rightarrow> None | Some s \<Rightarrow> if s \<noteq> [] then Some s else None) entries"

text \<open>
  \<^verbatim>\<open>parseSitemap\<close> calls itself for every entry of a sitemap index, with no record of the
  sitemaps already seen and no depth limit, so it need not return. The first argument
  bounds the nesting of calls that the model follows: at nesting 0 the call is still
  running. A failed fetch, a status that is not ok and a parser exception are caught and
  give no URLs; an index entry without \<^verbatim>\<open>loc\<close> makes \<^verbatim>\<open>fetch\<close> throw, which gives no URLs.
\<close>

fun parseSitemap :: "nat \<Rightarrow> env \<Rightarrow> string \<Rightarrow> string \<Rightarrow> world \<Rightarrow> (string list) outcome"
and parseSubSitemaps ::
  "nat \<Rightarrow> env \<Rightarrow> string \<Rightarrow> string option list \<Rightarrow> string list \<Rightarrow> world \<Rightarrow> (string list) outcome"
where
  "parseSitemap 0 E site sitemapLoc w = Running w"
| "parseSitemap (Suc depth) E site sitemapLoc w =
     (case doFetch E \<lparr>reqUrl = sitemapLoc, reqHeaders = [], redirectManual = False\<rparr> w of
        (Inl err, w1) \<Rightarrow> Returned [] w1
      | (Inr resp, w1) \<Rightarrow>
          if \<not> ok resp then Returned [] w1
          else
            (let w2 = recordSitemapState E site resp (respBody resp) w1
             in case parseXml E (respBody resp) of
                  None \<Rightarrow> Returned [] w2
                | Some (UrlSet entries) \<Rightarrow> Returned (truthyLocs entries) w2
                | Some (SitemapIndex sitemaps) \<Rightarrow> parseSubSitemaps depth E site sitemaps [] w2
                | Some OtherXml \<Rightarrow> Returned [] w2))"
| "parseSubSitemaps depth E site [] allUrls w = Returned allUrls w"
| "parseSubSitemaps depth E site (entry # rest) allUrls w =
     (case entry of
        None \<Rightarrow> parseSubSitemaps depth E site rest allUrls w
      | Some loc \<Rightarrow>
          (case parseSitemap depth E site loc w of
             Running w1 \<Rightarrow> Running w1
           | Returned subUrls w1 \<Rightarrow> parseSubSitemaps depth E site rest (allUrls @ subUrls) w1))"

definition defaultExcludePatterns :: "string list" where
  "defaultExcludePatterns =
     [''^.*/fr/.*$'', ''^.*/en/.*$'', ''^.*/es/.*$'', ''^.*/de/.*$'', ''^.*/it/.*$'',
      ''^.*/pt/.*$'', ''^.*/zh/.*$'', ''^.*/ja/.*$'', ''^.*/ko/.*$'', ''^.*/ar/.*$'',
      ''^.*/ru/.*$'']"

text \<open>
  The exclusion filter of \<^verbatim>\<open>getUrlsToBackup\<close>: an invalid pattern is dropped, and a URL
  is kept when no remaining pattern matches it.
\<close>

definition applyExclusions :: "env \<Rightarrow> siteConfig \<Rightarrow> string list \<Rightarrow> string list" where
  "applyExclusions E cfg us =
     (let patterns = (case excludePatterns cfg of None \<Rightarrow> defaultExcludePatterns | Some ps \<Rightarrow> ps)
      in if patterns \<noteq> []
         then filter (\<lambda>u. \<not> list_ex (\<lambda>p. regExpTest E p u = Some True) patterns) us
         else us)"

definition getUrlsToBackup :: "nat \<Rightarrow> env \<Rightarrow> siteConfig \<Rightarrow> world \<Rightarrow> (string list) outcome" where
  "getUrlsToBackup depth E cfg w =
     (case (case urls cfg of
              Some us \<Rightarrow> if us \<noteq> [] then Some us else None
            | None \<Rightarrow> None) of
        Some us \<Rightarrow> Returned (applyExclusions E cfg us) w
      | None \<Rightarrow>
          (case (case sitemapUrl cfg of
                   Some s \<Rightarrow> if s \<noteq> [] then Some s else None
                 | None \<Rightarrow> None) of
             Some s \<Rightarrow>
               (case parseSitemap depth E (siteId cfg) s w of
                  Running w1 \<Rightarrow> Running w1
                | Returned us w1 \<Rightarrow> Returned (applyExclusions E cfg us) w1)
           | None \<Rightarrow> Returned (applyExclusions E cfg [baseUrl cfg]) w))"

section \<open>Fetching pages (src/backup/fetcher.ts)\<close>

record fetchResult =
  frContent :: string
  frStatus :: nat
  frHeaders :: "(string \<times> string) list"
  frUrl :: string
  finalUrl :: string
  frRedirectCount :: nat
  frFetchTime :: nat

definition pageHeaders :: "(string \<times> string) list" where
  "pageHeaders =
     [(''User-Agent'', ''MultiSiteBackup/1.0 (Cloudflare Worker)''),
      (''Accept'', ''text/html,application/xhtml+xml,application/xml;q=0.9,*/*;q=0.8'')]"

fun showNat :: "nat \<Rightarrow> string" where
  "showNat n =
     (if n < 10 then [char_of (48 + n)] else showNat (n div 10) @ [char_of (48 + n mod 10)])"

text \<open>
  The redirect loop of \<^verbatim>\<open>performFetch\<close>:
  \<^verbatim>\<open>while (response.redirected && redirectCount < 5)\<close>, left early when the response has
  no \<^verbatim>\<open>location\<close>; an exception of \<^verbatim>\<open>new URL\<close> or of \<^verbatim>\<open>fetch\<close> ends the call.
\<close>

function followRedirects ::
  "env \<Rightarrow> string \<Rightarrow> response \<Rightarrow> nat \<Rightarrow> world \<Rightarrow> (string + response \<times> nat) \<times> world"
where
  "followRedirects E currentUrl resp hops w =
     (if redirected resp \<and> hops < 5 then
        (case headerGet resp ''location'' of
           None \<Rightarrow> (Inr (resp, hops), w)
         | Some location \<Rightarrow>
             (case resolveUrl E location currentUrl of
                None \<Rightarrow> (Inl ''Invalid URL'', w)
              | Some nextUrl \<Rightarrow>
                  (let stepped = doFetch E \<lparr>reqUrl = nextUrl, reqHeaders = pageHeaders,
                                             redirectManual = True\<rparr> w
                   in case fst stepped of
                        Inl err \<Rightarrow> (Inl err, snd stepped)
                      | Inr resp' \<Rightarrow> followRedirects E nextUrl resp' (Suc hops) (snd stepped))))
      else (Inr (resp, hops), w))"
  by pat_completeness auto
termination
  by (relation "measure (\<lambda>(E, currentUrl, resp, hops, w). 5 - hops)") auto

declare followRedirects.simps [simp del]

definition performFetch :: "env \<Rightarrow> string \<Rightarrow> fetchOptions \<Rightarrow> world \<Rightarrow> (string + fetchResult) \<times> world" where
  "performFetch E u options w =
     (case doFetch E \<lparr>reqUrl = u, reqHeaders = pageHeaders, redirectManual = False\<rparr> w of
        (Inl err, w1) \<Rightarrow> (Inl err, w1)
      | (Inr first, w1) \<Rightarrow>
          (case followRedirects E u first 0 w1 of
             (Inl err, w2) \<Rightarrow> (Inl err, w2)
           | (Inr (resp, hops), w2) \<Rightarrow>
               if \<not> ok resp
               then (Inl (''HTTP '' @ showNat (respStatus resp) @ '': '' @ statusText resp), w2)
               else (Inr \<lparr>frContent = respBody resp, frStatus = respStatus resp,
                          frHeaders = respHeaders resp, frUrl = u, finalUrl = respUrl resp,
                          frRedirectCount = hops, frFetchTime = elapsed E\<rparr>, w2)))"

text \<open>\<^verbatim>\<open>message || 'Unknown error'\<close>.\<close>

definition orUnknown :: "string option \<Rightarrow> string" where
  "orUnknown m = (case m of None \<Rightarrow> ''Unknown error'' | Some s \<Rightarrow> if s \<noteq> [] then s else ''Unknown error'')"

definition metadataOf :: "env \<Rightarrow> fetchResult \<Rightarrow> string list option \<Rightarrow> backupMetadata" where
  "metadataOf E fr patterns =
     \<lparr>metaUrl = frUrl fr, timestamp = nowIso E, hash = sha256 E (frContent fr),
      normalizedHash = Some (calculateNormalizedHash E (frContent fr) patterns),
      status = frStatus fr,
      contentType = (case map_of (frHeaders fr) ''content-type'' of
                       None \<Rightarrow> ''unknown''
                     | Some v \<Rightarrow> if v \<noteq> [] then v else ''unknown''),
      etag = map_of (frHeaders fr) ''etag'',
      byteSize = length (frContent fr), fetchTime = frFetchTime fr,
      redirectCount = Some (frRedirectCount fr)\<rparr>"

text \<open>
  \<^verbatim>\<open>fetchUrlWithRetries\<close>: the loop \<^verbatim>\<open>for (attempt = 0; attempt <= retries; attempt++)\<close>
  by the number of attempts that remain; the first success returns.
\<close>

fun retryLoop ::
  "env \<Rightarrow> string \<Rightarrow> fetchOptions \<Rightarrow> string list option \<Rightarrow> nat \<Rightarrow> string option \<Rightarrow> world
   \<Rightarrow> backupResult \<times> world"
where
  "retryLoop E u options patterns 0 lastError w =
     (\<lparr>url = u, success = False, metadata = None, pageContent = None,
       error = Some (orUnknown lastError)\<rparr>, w)"
| "retryLoop E u options patterns (Suc remaining) lastError w =
     (case performFetch E u options w of
        (Inr fr, w1) \<Rightarrow>
          (\<lparr>url = frUrl fr, success = True, metadata = Some (metadataOf E fr patterns),
            pageContent = Some (frContent fr), error = None\<rparr>, w1)
      | (Inl err, w1) \<Rightarrow> retryLoop E u options patterns remaining (Some err) w1)"

definition fetchUrlWithRetries ::
  "env \<Rightarrow> string \<Rightarrow> fetchOptions \<Rightarrow> string list option \<Rightarrow> world \<Rightarrow> backupResult \<times> world" where
  "fetchUrlWithRetries E u options patterns w =
     retryLoop E u options patterns (Suc (retries options)) None w"

text \<open>One chunk of \<^verbatim>\<open>fetchUrlsWithConcurrency\<close>; the results are pushed in the order of the chunk.\<close>

fun fetchChunk ::
  "env \<Rightarrow> fetchOptions \<Rightarrow> string list option \<Rightarrow> string list \<Rightarrow> world \<Rightarrow> backupResult list \<times> world"
where
  "fetchChunk E options patterns [] w = ([], w)"
| "fetchChunk E options patterns (u # us) w =
     (case fetchUrlWithRetries E u options patterns w of
        (r, w1) \<Rightarrow> (case fetchChunk E options patterns us w1 of (rs, w2) \<Rightarrow> (r # rs, w2)))"

text \<open>
  \<^verbatim>\<open>for (let i = 0; i < urls.length; i += concurrency)\<close> with
  \<^verbatim>\<open>concurrency = Math.min(options.concurrency, 5)\<close>: with concurrency 0 the loop never
  ends.
\<close>

function fetchLoop ::
  "env \<Rightarrow> fetchOptions \<Rightarrow> string list option \<Rightarrow> string list \<Rightarrow> nat \<Rightarrow> nat \<Rightarrow> backupResult list
   \<Rightarrow> world \<Rightarrow> (backupResult list) outcome"
where
  "fetchLoop E options patterns us c i acc w =
     (if i < length us then
        (if c = 0 then Running w
         else (let chunk = fetchChunk E options patterns (take c (drop i us)) w
               in fetchLoop E options patterns us c (i + c) (acc @ fst chunk) (snd chunk)))
      else Returned acc w)"
  by pat_completeness auto
termination
  by (relation "measure (\<lambda>(E, options, patterns, us, c, i, acc, w). length us - i)") auto

declare fetchLoop.simps [simp del]

definition fetchUrlsWithConcurrency ::
  "env \<Rightarrow> string list \<Rightarrow> fetchOptions \<Rightarrow> string list option \<Rightarrow> world \<Rightarrow> (backupResult list) outcome" where
  "fetchUrlsWithConcurrency E us options patterns w =
     fetchLoop E options patterns us (min (concurrency options) 5) 0 [] w"

section \<open>Storing backups and retention cleanup (src/backup/fetcher.ts)\<close>

fun storeBackups :: "env \<Rightarrow> string \<Rightarrow> backupResult list \<Rightarrow> world \<Rightarrow> world" where
  "storeBackups E site [] w = w"
| "storeBackups E site (r # rs) w =
     (case (metadata r, pageContent r) of
        (Some m, Some c) \<Rightarrow>
          if c = [] then storeBackups E site rs w
          else
            (let urlHash = getUrlHash (sha256 E) (url r);
                 contentKey = ''backup:'' @ site @ '':'' @ today E @ '':'' @ urlHash;
                 metadataKey = ''meta:'' @ site @ '':'' @ today E @ '':'' @ urlHash;
                 prevLatestKey = ''prev_latest:'' @ site @ '':'' @ urlHash;
                 previousLatest = kvGet (kv w) (latestKey (sha256 E) site (url r));
                 w1 = put contentKey (PlainText c) w;
                 w2 = put metadataKey (JsonText (metadataJson m)) w1;
                 w3 = put (latestKey (sha256 E) site (url r)) (JsonText (metadataJson m)) w2;
                 w4 = (case previousLatest of
                         None \<Rightarrow> w3
                       | Some old \<Rightarrow> if truthyText old then put prevLatestKey old w3 else w3)
             in storeBackups E site rs w4)
      | _ \<Rightarrow> storeBackups E site rs w)"

text \<open>\<^verbatim>\<open>key.split(':')\<close>.\<close>

fun splitColon :: "string \<Rightarrow> string list" where
  "splitColon [] = [[]]"
| "splitColon (c # cs) =
     (if c = CHR '':'' then [] # splitColon cs
      else (case splitColon cs of [] \<Rightarrow> [[c]] | p # ps \<Rightarrow> (c # p) # ps))"

definition hasPrefix :: "string \<Rightarrow> string \<Rightarrow> bool" where
  "hasPrefix p s \<longleftrightarrow> take (length p) s = p"

text \<open>
  \<^verbatim>\<open>kv.list({prefix, limit})\<close>: the first \<open>limit\<close> keys with the prefix, in the
  lexicographic order in which the store lists keys.
\<close>

definition kvList :: "kvNamespace \<Rightarrow> string \<Rightarrow> nat \<Rightarrow> string list" where
  "kvList ns p limit = take limit (sort (filter (hasPrefix p) (map fst ns)))"

text \<open>
  The keys that \<^verbatim>\<open>cleanupOldBackups\<close> deletes for one listed key: the key itself and
  \<^verbatim>\<open>key.replace('backup:', 'meta:')\<close>, which rewrites the prefix that every listed key
  starts with.
\<close>

definition expiredKeys :: "string \<Rightarrow> string \<Rightarrow> string list" where
  "expiredKeys cutoff key =
     (let keyParts = splitColon key
      in if 4 \<le> length keyParts \<and> keyParts ! 2 < cutoff
         then [key, ''meta:'' @ drop 7 key] else [])"

definition cleanupOldBackups :: "env \<Rightarrow> string \<Rightarrow> nat \<Rightarrow> world \<Rightarrow> world" where
  "cleanupOldBackups E site days w =
     (let listed = kvList (kv w) (''backup:'' @ site @ '':'') 1000;
          keysToDelete = concat (map (expiredKeys (cutoffString E days)) listed)
      in foldl (\<lambda>w' key. del key w') w keysToDelete)"

section \<open>Batch crawl orchestrator: \<^verbatim>\<open>BackupFetcher.performSiteBackup\<close> (src/backup/fetcher.ts)\<close>

definition buildNoopResult :: "env \<Rightarrow> batchedBackupResult" where
  "buildNoopResult E =
     \<lparr>totalUrls = 0, processedInBatch = 0, successfulBackups = 0, failedBackups = 0,
      changedUrls = [], executionTime = elapsed E, errors = [], results = [],
      batchOffset = 0, batchSize = 0, hasMore = False, nextOffset = None,
      progress = \<lparr>completed = 0, total = 0, percentComplete = 100\<rparr>\<rparr>"

text \<open>
  The first part of \<^verbatim>\<open>performSiteBackup\<close>: the batch size, clamped from above only,
\<close>

definition effectiveBatchSize :: "batchOptions \<Rightarrow> int" where
  "effectiveBatchSize opts =
     min (case optBatchSize opts of None \<Rightarrow> DEFAULT_BATCH_SIZE | Some b \<Rightarrow> b) MAX_BATCH_SIZE"

text \<open>the saved progress, looked at only when \<^verbatim>\<open>continueFromLast\<close> is set,\<close>

definition loadedOffset :: "batchOptions \<Rightarrow> siteConfig \<Rightarrow> world \<Rightarrow> int option" where
  "loadedOffset opts cfg w = (if continueFromLast opts then savedOffset w (siteId cfg) else None)"

definition startOffset :: "batchOptions \<Rightarrow> siteConfig \<Rightarrow> world \<Rightarrow> int" where
  "startOffset opts cfg w =
     (case loadedOffset opts cfg w of
        Some next \<Rightarrow> next
      | None \<Rightarrow> (case optBatchOffset opts of None \<Rightarrow> 0 | Some b \<Rightarrow> b))"

text \<open>
  and the once-per-day check at the start of a cycle: \<open>True\<close> when the invocation is to
  return the no-op result.
\<close>

definition alreadyScanned :: "env \<Rightarrow> siteConfig \<Rightarrow> batchOptions \<Rightarrow> world \<Rightarrow> bool \<times> world" where
  "alreadyScanned E cfg opts w =
     (if continueFromLast opts \<and> loadedOffset opts cfg w = None \<and> startOffset opts cfg w = 0
         \<and> fullScanIsToday E w (siteId cfg)
      then (case (case sitemapUrl cfg of
                    Some s \<Rightarrow> if s \<noteq> [] then Some s else None
                  | None \<Rightarrow> None) of
              Some s \<Rightarrow> (case hasSitemapChanged E (siteId cfg) s w of (changed, w1) \<Rightarrow> (\<not> changed, w1))
            | None \<Rightarrow> (True, w))
      else (False, w))"

text \<open>
  The second part, from the slice of the batch to the result. An empty batch clears the
  progress record and writes the full-scan state; otherwise the batch is fetched, compared
  and stored, old backups are cleaned up when the batch starts at offset 0, and the
  progress record is saved or cleared.
\<close>

definition processBatch ::
  "env \<Rightarrow> siteConfig \<Rightarrow> int \<Rightarrow> int \<Rightarrow> string list \<Rightarrow> world \<Rightarrow> batchedBackupResult outcome" where
  "processBatch E cfg offset bsize allUrls w =
     (let batchUrls = slice allUrls offset (offset + bsize)
      in if batchUrls = [] then
           Returned
             \<lparr>totalUrls = length allUrls, processedInBatch = 0, successfulBackups = 0,
              failedBackups = 0, changedUrls = [], executionTime = elapsed E, errors = [],
              results = [], batchOffset = offset, batchSize = bsize, hasMore = False,
              nextOffset = None,
              progress = \<lparr>completed = int (length allUrls), total = length allUrls,
                          percentComplete = 100\<rparr>\<rparr>
             (setFullScanState (siteId cfg) (today E) (nowIso E) (length allUrls)
                (clearBatchProgress (siteId cfg) w))
         else
           (case fetchUrlsWithConcurrency E batchUrls (fetchOpts cfg)
                   (ignorePatterns (threshold cfg)) w of
              Running w1 \<Rightarrow> Running w1
            | Returned fetched w1 \<Rightarrow>
                (let successfulResults = filter success fetched;
                     failedResults = filter (\<lambda>r. \<not> success r) fetched;
                     changed = detectChanges (sha256 E) (kv w1) (siteId cfg) successfulResults;
                     w2 = storeBackups E (siteId cfg) successfulResults w1;
                     w3 = (if offset = 0
                           then cleanupOldBackups E (siteId cfg) (retentionDays cfg) w2 else w2);
                     next = offset + int (length batchUrls);
                     more = (next < int (length allUrls));
                     done = min next (int (length allUrls));
                     w4 = (if more
                           then saveBatchProgress (siteId cfg) next (length allUrls) (nowIso E) w3
                           else setFullScanState (siteId cfg) (today E) (nowIso E) (length allUrls)
                                  (clearBatchProgress (siteId cfg) w3))
                 in Returned
                      \<lparr>totalUrls = length allUrls, processedInBatch = length batchUrls,
                       successfulBackups = length successfulResults,
                       failedBackups = length failedResults, changedUrls = changed,
                       executionTime = elapsed E,
                       errors = map (\<lambda>r. orUnknown (error r)) failedResults,
                       results = fetched, batchOffset = offset, batchSize = bsize,
                       hasMore = more, nextOffset = (if more then Some next else None),
                       progress = \<lparr>completed = done, total = length allUrls,
                                   percentComplete = roundPercent E done (length allUrls)\<rparr>\<rparr>
                      w4)))"

text \<open>
  \<^verbatim>\<open>performSiteBackup\<close>. The first argument bounds the nesting of \<^verbatim>\<open>parseSitemap\<close>
  calls that the model follows.
\<close>

definition performSiteBackup ::
  "nat \<Rightarrow> env \<Rightarrow> siteConfig \<Rightarrow> batchOptions \<Rightarrow> world \<Rightarrow> batchedBackupResult outcome" where
  "performSiteBackup depth E cfg opts w =
     (case alreadyScanned E cfg opts w of
        (True, w1) \<Rightarrow> Returned (buildNoopResult E) w1
      | (False, w1) \<Rightarrow>
          (case getUrlsToBackup depth E cfg w1 of
             Running w2 \<Rightarrow> Running w2
           | Returned allUrls w2 \<Rightarrow>
               processBatch E cfg (startOffset opts cfg w) (effectiveBatchSize opts) allUrls w2))"

text \<open>
  A continuation sequence: one invocation for each element of a list of batch options,
  each on the state the one before left, as long as the result says \<^verbatim>\<open>hasMore\<close>.
\<close>

fun continuation ::
  "nat \<Rightarrow> env \<Rightarrow> siteConfig \<Rightarrow> batchOptions list \<Rightarrow> world \<Rightarrow> (batchedBackupResult list) outcome"
where
  "continuation depth E cfg [] w = Returned [] w"
| "continuation depth E cfg (opts # later) w =
     (case performSiteBackup depth E cfg opts w of
        Running w1 \<Rightarrow> Running w1
      | Returned r w1 \<Rightarrow>
          if hasMore r then
            (case continuation depth E cfg later w1 of
               Running w2 \<Rightarrow> Running w2
             | Returned rs w2 \<Rightarrow> Returned (r # rs) w2)
          else Returned [r] w1)"

section \<open>Sample environments and inputs\<close>


fun stateAfter :: "'a outcome \<Rightarrow> world" where
  "stateAfter (Returned x w) = w"
| "stateAfter (Running w) = w"

text \<open>
  An environment over a given web and XML parser. The digest stand-in reverses its
  argument (so distinct strings have distinct digests), no exclusion pattern matches, and
  the clock stands at 2026-02-22.
\<close>

definition webEnv :: "(request \<Rightarrow> string + response) \<Rightarrow> (string \<Rightarrow> xmlDoc option) \<Rightarrow> env" where
  "webEnv web xml =
     \<lparr>fetch = web, parseXml = xml, sha256 = rev,
      calculateNormalizedHash = (\<lambda>c patterns. rev c),
      regExpTest = (\<lambda>p u. Some False),
      resolveUrl = (\<lambda>location base. Some location),
      today = ''2026-02-22'', nowIso = ''2026-02-22T00:00:00.000Z'',
      cutoffString = (\<lambda>days. ''2026-02-15''), elapsed = 0,
      roundPercent = (\<lambda>c n. (200 * c + int n) div (2 * int n))\<rparr>"

definition okResponse :: "string \<Rightarrow> response" where
  "okResponse b =
     \<lparr>respStatus = 200, statusText = ''OK'', respHeaders = [], respBody = b,
      redirected = False, respUrl = []\<rparr>"

text \<open>A network on which every request fails.\<close>

definition offlineEnv :: env where
  "offlineEnv = webEnv (\<lambda>req. Inl ''network error'') (\<lambda>s. None)"

definition sampleSite :: "string option \<Rightarrow> string list option \<Rightarrow> siteConfig" where
  "sampleSite sitemap explicit =
     \<lparr>siteId = ''s'', name = ''Test Site'', baseUrl = ''https://example.com'',
      sitemapUrl = sitemap, urls = explicit, retentionDays = 7, schedule = ''0 2 * * *'',
      fetchOpts = \<lparr>timeout = 10000, retries = 0, concurrency = 3\<rparr>,
      threshold = \<lparr>minChangeSize = Some 0, ignorePatterns = Some []\<rparr>,
      excludePatterns = Some []\<rparr>"

definition continueOpts :: "int \<Rightarrow> batchOptions" where
  "continueOpts b = \<lparr>optBatchSize = Some b, optBatchOffset = None, continueFromLast = True\<rparr>"

text \<open>A store that holds one progress record for the sample site, and nothing else.\<close>

definition resumeAt :: "int \<Rightarrow> nat \<Rightarrow> world" where
  "resumeAt next n =
     \<lparr>kv = [(''batch_progress:s'', JsonText (progressJson next n ''2026-02-21T23:00:00.000Z''))],
      fetchLog = []\<rparr>"




definition emptyWorld :: world where
  "emptyWorld = \<lparr>kv = [], fetchLog = []\<rparr>"

text \<open>What a batch result says about progress: processed, total, more to come.\<close>

definition batchSummary :: "batchedBackupResult \<Rightarrow> nat \<times> nat \<times> bool" where
  "batchSummary r = (processedInBatch r, totalUrls r, hasMore r)"

text \<open>
  Two sitemap indexes that list each other: \<^verbatim>\<open>sitemap.xml\<close> lists \<^verbatim>\<open>sitemap-b.xml\<close>, which
  lists \<^verbatim>\<open>sitemap.xml\<close>. The bodies are tokens that the XML parser of this environment
  maps to the parsed documents.
\<close>

definition sitemapA :: string where "sitemapA = ''https://example.com/sitemap.xml''"
definition sitemapB :: string where "sitemapB = ''https://example.com/sitemap-b.xml''"

definition cycleEnv :: env where
  "cycleEnv =
     webEnv (\<lambda>req. Inr (okResponse (if reqUrl req = sitemapB then ''index-b'' else ''index-a'')))
            (\<lambda>s. if s = ''index-a'' then Some (SitemapIndex [Some sitemapB])
                  else if s = ''index-b'' then Some (SitemapIndex [Some sitemapA])
                  else None)"

definition freshOpts :: "int \<Rightarrow> batchOptions" where
  "freshOpts b = \<lparr>optBatchSize = Some b, optBatchOffset = None, continueFromLast = False\<rparr>"

text \<open>
  A flat sitemap of two pages whose body differs between two runs in its \<^verbatim>\<open>lastmod\<close>
  values only: both bodies parse to the same two \<^verbatim>\<open>loc\<close> entries. The server sends no
  validators.
\<close>

definition lastmodEnv :: "string \<Rightarrow> env" where
  "lastmodEnv sitemapBody =
     webEnv (\<lambda>req. Inr (okResponse (if reqUrl req = sitemapA then sitemapBody else ''ok'')))
            (\<lambda>s. if s = ''urlset lastmod=00:00'' \<or> s = ''urlset lastmod=00:05''
                  then Some (UrlSet [Some ''https://example.com/page1'',
                                     Some ''https://example.com/page2''])
                  else None)"

definition sitemapSite :: siteConfig where
  "sitemapSite = sampleSite (Some sitemapA) None"

text \<open>
  What a completed scan of the first body leaves in the store for the next invocation to
  read: the sitemap state recorded by \<^verbatim>\<open>parseSitemap\<close> (no validators, the hash of the
  body) and the full-scan state for today.
\<close>

definition scannedWorld :: world where
  "scannedWorld =
     \<lparr>kv = [(''sitemap_state:s'',
             JsonText (JObj [(''contentHash'', JStr (rev ''urlset lastmod=00:00'')),
                             (''checkedAt'', JStr ''2026-02-22T00:00:00.000Z'')])),
            (''full_scan:s'',
             JsonText (fullScanJson ''2026-02-22'' ''2026-02-22T00:00:00.000Z'' 2))],
      fetchLog = []\<rparr>"

text \<open>A flat sitemap of 101 pages, and a site without exclusion patterns of its own.\<close>

definition manyPages :: "string list" where
  "manyPages = map (\<lambda>i. ''https://example.com/page'' @ showNat i) [1..<102]"

definition largeEnv :: env where
  "largeEnv =
     webEnv (\<lambda>req. Inr (okResponse (if reqUrl req = sitemapA then ''urlset-101'' else ''ok'')))
            (\<lambda>s. if s = ''urlset-101'' then Some (UrlSet (map Some manyPages)) else None)"

definition largeSite :: siteConfig where
  "largeSite = (sampleSite (Some sitemapA) None)\<lparr>excludePatterns := None\<rparr>"

text \<open>What an invocation reports and which URLs it has fetched.\<close>

fun report :: "batchedBackupResult outcome \<Rightarrow> (nat \<times> nat \<times> bool) option \<times> string list" where
  "report (Returned r w) = (Some (batchSummary r), fetchLog w)"
| "report (Running w) = (None, fetchLog w)"

text \<open>A page that answers the first request with an ok response and no redirect.\<close>

definition pageOk :: "env \<Rightarrow> string \<Rightarrow> bool" where
  "pageOk E u \<longleftrightarrow>
     (case fetch E \<lparr>reqUrl = u, reqHeaders = pageHeaders, redirectManual = False\<rparr> of
        Inl err \<Rightarrow> False
      | Inr resp \<Rightarrow> ok resp \<and> \<not> redirected resp)"

definition twoPages :: "string list" where
  "twoPages = [''https://example.com/page1'', ''https://example.com/page2'']"

section \<open>Verified properties\<close>

subsection \<open>Truncation of a diff keeps the highest priorities\<close>

lemma slice_from_zero: "slice xs 0 e = take (relIndex e (length xs)) xs"
  by (simp add: slice_def relIndex_def Let_def)

lemma relIndex_nonneg: "0 \<le> e \<Longrightarrow> relIndex e n = min (nat e) n"
  by (simp add: relIndex_def)

lemma take_min_length: "take (min k (length xs)) xs = take k xs"
  by (cases "k \<le> length xs") (simp_all add: min_def)

lemma mset_prioritySort: "mset (prioritySort xs) = mset xs"
  by (simp add: prioritySort_def)

lemma prioritySort_descending: "sorted (map (\<lambda>c. - priority c) (prioritySort xs))"
  by (simp add: prioritySort_def)

lemma take_sorted_keepsHighest: "keepsHighest xs (take k (prioritySort xs))"
proof -
  let ?s = "prioritySort xs"
  have split: "mset xs = mset (take k ?s) + mset (drop k ?s)"
    by (metis append_take_drop_id mset_append mset_prioritySort)
  have sub: "mset (take k ?s) \<subseteq># mset xs"
    by (simp add: split)
  have rest: "mset xs - mset (take k ?s) = mset (drop k ?s)"
    by (simp add: split)
  have "sorted (map (\<lambda>c. - priority c) (take k ?s @ drop k ?s))"
    using prioritySort_descending by simp
  then have "\<forall>a \<in> set (take k ?s). \<forall>b \<in> set (drop k ?s). priority b \<le> priority a"
    unfolding map_append sorted_append by auto
  then show ?thesis
    unfolding keepsHighest_def rest using sub by simp
qed

text \<open>
  C8. For every diff and every integer limit, each category of the limited diff is a
  prefix of that category sorted by descending priority, so no dropped change has a
  strictly higher priority than a retained change of the same category; for a limit that
  is not negative the prefix has three fifths of the limit (content) or one fifth of it
  (style, structure), rounded down.
\<close>

theorem limitChanges_keeps_highest_priority:
  "keepsHighest (content (classification d)) (content (classification (limitChanges d m))) \<and>
   keepsHighest (style (classification d)) (style (classification (limitChanges d m))) \<and>
   keepsHighest (structure (classification d)) (structure (classification (limitChanges d m))) \<and>
   (0 \<le> m \<longrightarrow>
      content (classification (limitChanges d m)) =
        take (nat ((m * 3) div 5)) (prioritySort (content (classification d))) \<and>
      style (classification (limitChanges d m)) =
        take (nat (m div 5)) (prioritySort (style (classification d))) \<and>
      structure (classification (limitChanges d m)) =
        take (nat (m div 5)) (prioritySort (structure (classification d))))"
  by (simp add: limitChanges_def Let_def slice_from_zero take_sorted_keepsHighest
      relIndex_nonneg contentShare_def minorShare_def pos_imp_zdiv_nonneg_iff take_min_length)

theorem limitChanges_keeps_highest_priority_witness:
  "(0::int) \<le> 4 \<and>
   map priority (content (classification sampleDiff)) = [3, 5, 4] \<and>
   map priority (content (classification (limitChanges sampleDiff 4))) = [5, 4] \<and>
   map priority (style (classification (limitChanges sampleDiff 4))) = [] \<and>
   map priority (structure (classification (limitChanges sampleDiff 4))) = [] \<and>
   keepsHighest (content (classification sampleDiff))
     (content (classification (limitChanges sampleDiff 4)))"
proof -
  note t = limitChanges_keeps_highest_priority [of sampleDiff 4]
  have v: "map priority (content (classification (limitChanges sampleDiff 4))) = [5, 4]"
    "map priority (style (classification (limitChanges sampleDiff 4))) = []"
    "map priority (structure (classification (limitChanges sampleDiff 4))) = []"
    "map priority (content (classification sampleDiff)) = [3, 5, 4]"
    by (simp_all add: limitChanges_def sampleDiff_def prioritySort_def slice_def relIndex_def
        contentShare_def minorShare_def)
  from t have k: "keepsHighest (content (classification sampleDiff))
     (content (classification (limitChanges sampleDiff 4)))" by (rule conjunct1)
  from k v show ?thesis by simp
qed

subsection \<open>Change detection\<close>

lemma prevComparableHash_metadataJson:
  "prevComparableHash (metadataJson p) = Some (Some (JStr (comparableHash p)))"
  by (simp add: prevComparableHash_def metadataJson_def optField_def comparableHash_def jsOr_def
      split: option.splits)

lemma detectChanges_append:
  "detectChanges H ns site (xs @ ys) = detectChanges H ns site xs @ detectChanges H ns site ys"
  by (induction xs) (simp_all split: option.splits)

text \<open>
  C3. A successfully fetched URL with no stored latest record is reported changed. With a
  stored record, it is reported changed exactly when the comparable hashes differ, the
  comparable hash being the normalized hash, or the raw hash when no (non-empty)
  normalized hash is recorded; so equal normalized hashes are never reported, whatever
  the raw hashes are.
\<close>

theorem detectChanges_decision:
  assumes "metadata r = Some m"
  shows "(kvGet ns (latestKey H site (url r)) = None \<longrightarrow>
            detectChanges H ns site (r # rs) = url r # detectChanges H ns site rs) \<and>
         (kvGet ns (latestKey H site (url r)) = Some (JsonText (metadataJson p)) \<longrightarrow>
            detectChanges H ns site (r # rs) =
              (if comparableHash p \<noteq> comparableHash m then [url r] else [])
              @ detectChanges H ns site rs \<and>
            (normalizedHash p = Some h \<and> normalizedHash m = Some h \<and> h \<noteq> [] \<longrightarrow>
               detectChanges H ns site (r # rs) = detectChanges H ns site rs))"
  using assms by (simp add: prevComparableHash_metadataJson comparableHash_def)

theorem detectChanges_decision_witness:
  "metadata (sampleResult ''raw-new'' ''norm-1'') = Some (sampleMeta ''raw-new'' ''norm-1'') \<and>
   detectChanges sampleDigest [] ''test-site'' [sampleResult ''raw-new'' ''norm-1'']
     = [''https://example.com/page1''] \<and>
   detectChanges sampleDigest
     [(''latest:test-site:0123456789abcdef'', JsonText (metadataJson (sampleMeta ''raw-old'' ''norm-1'')))]
     ''test-site'' [sampleResult ''raw-new'' ''norm-1''] = [] \<and>
   detectChanges sampleDigest
     [(''latest:test-site:0123456789abcdef'', JsonText (metadataJson (sampleMeta ''raw-old'' ''norm-0'')))]
     ''test-site'' [sampleResult ''raw-new'' ''norm-1''] = [''https://example.com/page1'']"
proof -
  let ?r = "sampleResult ''raw-new'' ''norm-1''"
  let ?m = "sampleMeta ''raw-new'' ''norm-1''"
  let ?p1 = "sampleMeta ''raw-old'' ''norm-1''"
  let ?p2 = "sampleMeta ''raw-old'' ''norm-0''"
  let ?k = "latestKey sampleDigest ''test-site'' (url ?r)"
  let ?kv1 = "[(''latest:test-site:0123456789abcdef'', JsonText (metadataJson ?p1))]"
  let ?kv2 = "[(''latest:test-site:0123456789abcdef'', JsonText (metadataJson ?p2))]"
  have m: "metadata ?r = Some ?m" by (simp add: sampleResult_def)
  have k: "?k = ''latest:test-site:0123456789abcdef''"
    by (simp add: latestKey_def getUrlHash_def sampleDigest_def sampleResult_def)
  have u: "url ?r = ''https://example.com/page1''" by (simp add: sampleResult_def)
  have g0: "kvGet [] ?k = None" by (simp add: kvGet_def)
  have g1: "kvGet ?kv1 ?k = Some (JsonText (metadataJson ?p1))"
    unfolding k by (simp add: kvGet_def)
  have g2: "kvGet ?kv2 ?k = Some (JsonText (metadataJson ?p2))"
    unfolding k by (simp add: kvGet_def)
  have c: "comparableHash ?p2 \<noteq> comparableHash ?m"
    "normalizedHash ?p1 = Some ''norm-1''"
    "normalizedHash ?m = Some ''norm-1''"
    "comparableHash ?p1 = comparableHash ?m"
    by (simp_all add: comparableHash_def sampleMeta_def)
  have e: "detectChanges sampleDigest ns ''test-site'' [] = []" for ns by simp
  from detectChanges_decision [OF m, where ns = "[]" and H = sampleDigest and site = "''test-site''" and rs = "[]"] g0
  have a: "detectChanges sampleDigest [] ''test-site'' [?r] = [''https://example.com/page1'']"
    by (simp del: detectChanges.simps add: u e)
  from detectChanges_decision [OF m, where ns = ?kv1 and H = sampleDigest and site = "''test-site''"
      and p = ?p1 and rs = "[]" and h = "''norm-1''"] g1 c(2,3,4)
  have b: "detectChanges sampleDigest ?kv1 ''test-site'' [?r] = []"
    by (simp del: detectChanges.simps add: e)
  from detectChanges_decision [OF m, where ns = ?kv2 and H = sampleDigest and site = "''test-site''"
      and p = ?p2 and rs = "[]"] g2 c(1)
  have d: "detectChanges sampleDigest ?kv2 ''test-site'' [?r] = [''https://example.com/page1'']"
    by (simp del: detectChanges.simps add: u e)
  from m a b d show ?thesis by (intro conjI)
qed

text \<open>
  C10. A stored latest value that does not parse as JSON makes the change detector report
  that URL as changed; the results before and after it are judged as usual.
\<close>

theorem detectChanges_unparsable_latest:
  assumes "metadata r = Some m"
      and "kvGet ns (latestKey H site (url r)) = Some (PlainText s)"
  shows "detectChanges H ns site (earlier @ r # later) =
           detectChanges H ns site earlier @ url r # detectChanges H ns site later"
  using assms by (simp add: detectChanges_append)

theorem detectChanges_unparsable_latest_witness:
  "metadata (sampleResult ''raw-new'' ''norm-1'') = Some (sampleMeta ''raw-new'' ''norm-1'') \<and>
   kvGet [(''latest:test-site:0123456789abcdef'', PlainText ''{not json'')]
     (latestKey sampleDigest ''test-site'' (url (sampleResult ''raw-new'' ''norm-1'')))
     = Some (PlainText ''{not json'') \<and>
   detectChanges sampleDigest [(''latest:test-site:0123456789abcdef'', PlainText ''{not json'')]
     ''test-site'' [sampleResult ''raw-new'' ''norm-1''] = [''https://example.com/page1'']"
proof -
  let ?r = "sampleResult ''raw-new'' ''norm-1''"
  let ?ns = "[(''latest:test-site:0123456789abcdef'', PlainText ''{not json'')]"
  have m: "metadata ?r = Some (sampleMeta ''raw-new'' ''norm-1'')" by (simp add: sampleResult_def)
  have g: "kvGet ?ns (latestKey sampleDigest ''test-site'' (url ?r)) = Some (PlainText ''{not json'')"
    by (simp add: kvGet_def latestKey_def getUrlHash_def sampleDigest_def sampleResult_def)
  have u: "url ?r = ''https://example.com/page1''" by (simp add: sampleResult_def)
  from detectChanges_unparsable_latest [OF m g, of "[]" "[]"]
  have "detectChanges sampleDigest ?ns ''test-site'' [?r] = [''https://example.com/page1'']"
    by (simp del: detectChanges.simps add: u detectChanges.simps(1))
  with m g show ?thesis by (intro conjI)
qed

subsection \<open>The store and the batch slice\<close>

lemma kvGet_put: "kvGet (kv (put k v w)) k' = (if k' = k then Some v else kvGet (kv w) k')"
  by (simp add: kvGet_def put_def kvPut_def update_conv')

lemma kvGet_del: "kvGet (kv (del k w)) k' = (if k' = k then None else kvGet (kv w) k')"
  by (simp add: kvGet_def del_def kvDelete_def delete_conv')

lemma relIndex_le: "relIndex i n \<le> n"
  by (auto simp: relIndex_def)



subsection \<open>The resolved URL list does not depend on the store\<close>



subsection \<open>Batch accounting over a continuation sequence\<close>






lemma continuation_nonempty:
  "continuation depth E cfg (opts # later) w = Returned rs w' \<Longrightarrow> rs \<noteq> []"
  by (auto split: outcome.splits if_splits)







subsection \<open>Offsets beyond the URL list, and empty resolutions\<close>




lemma progress_full_scan_keys: "progressKey site \<noteq> fullScanKey site"
  by (simp add: progressKey_def fullScanKey_def)

theorem progress_untouched_counterexample:
  "getUrlsToBackup 1 offlineEnv (sampleSite (Some ''https://example.com/sitemap.xml'') None)
     (resumeAt 25 100)
     = Returned [] \<lparr>kv = kv (resumeAt 25 100), fetchLog = [''https://example.com/sitemap.xml'']\<rparr> \<and>
   kvGet (kv (resumeAt 25 100)) (progressKey ''s'')
     = Some (JsonText (progressJson 25 100 ''2026-02-21T23:00:00.000Z'')) \<and>
   kvGet (kv (stateAfter (performSiteBackup 1 offlineEnv
            (sampleSite (Some ''https://example.com/sitemap.xml'') None) (continueOpts 25)
            (resumeAt 25 100)))) (progressKey ''s'') = None"
proof -
  have a: "getUrlsToBackup 1 offlineEnv (sampleSite (Some ''https://example.com/sitemap.xml'') None)
     (resumeAt 25 100)
     = Returned [] \<lparr>kv = kv (resumeAt 25 100), fetchLog = [''https://example.com/sitemap.xml'']\<rparr>"
    by code_simp
  have b: "kvGet (kv (resumeAt 25 100)) (progressKey ''s'')
     = Some (JsonText (progressJson 25 100 ''2026-02-21T23:00:00.000Z''))"
    by code_simp
  have c: "kvGet (kv (stateAfter (performSiteBackup 1 offlineEnv
            (sampleSite (Some ''https://example.com/sitemap.xml'') None) (continueOpts 25)
            (resumeAt 25 100)))) (progressKey ''s'') = None"
    by code_simp
  from a b c show ?thesis by (intro conjI)
qed

text \<open>
  C6. The code does not behave as claimed: when resolution yields no URL while a progress
  record exists, the invocation takes the branch meant for the end of a cycle (commented
  \<^verbatim>\<open>No more URLs to process\<close>). It returns with \<^verbatim>\<open>totalUrls = 0\<close>, \<^verbatim>\<open>processedInBatch = 0\<close>
  and \<^verbatim>\<open>hasMore = false\<close>, deletes the progress record and writes the full-scan state for
  today with zero URLs, so the rest of the cycle is lost.
\<close>

theorem empty_resolution_ends_cycle:
  assumes none: "getUrlsToBackup depth E cfg w = Returned [] w1"
      and saved: "kvGet (kv w) (progressKey (siteId cfg)) = Some (JsonText (progressJson next n t))"
  shows "\<exists>r w'. performSiteBackup depth E cfg opts w = Returned r w' \<and>
           totalUrls r = 0 \<and> processedInBatch r = 0 \<and> \<not> hasMore r \<and> nextOffset r = None \<and>
           kvGet (kv w') (progressKey (siteId cfg)) = None \<and>
           kvGet (kv w') (fullScanKey (siteId cfg))
             = Some (JsonText (fullScanJson (today E) (nowIso E) 0))"
proof -
  have s: "savedOffset w (siteId cfg) = Some next"
    using saved by (simp add: savedOffset_def progressJson_def)
  have a: "alreadyScanned E cfg opts w = (False, w)"
    using s by (simp add: alreadyScanned_def loadedOffset_def)
  let ?w' = "setFullScanState (siteId cfg) (today E) (nowIso E) 0 (clearBatchProgress (siteId cfg) w1)"
  have k1: "kvGet (kv ?w') (progressKey (siteId cfg)) = None"
    using progress_full_scan_keys [of "siteId cfg"]
    by (simp add: setFullScanState_def clearBatchProgress_def kvGet_put kvGet_del)
  have k2: "kvGet (kv ?w') (fullScanKey (siteId cfg))
             = Some (JsonText (fullScanJson (today E) (nowIso E) 0))"
    by (simp add: setFullScanState_def kvGet_put)
  have run: "performSiteBackup depth E cfg opts w =
         Returned \<lparr>totalUrls = 0, processedInBatch = 0, successfulBackups = 0,
              failedBackups = 0, changedUrls = [], executionTime = elapsed E, errors = [],
              results = [], batchOffset = startOffset opts cfg w,
              batchSize = effectiveBatchSize opts, hasMore = False, nextOffset = None,
              progress = \<lparr>completed = 0, total = 0, percentComplete = 100\<rparr>\<rparr> ?w'"
    using a none by (simp add: performSiteBackup_def processBatch_def slice_def Let_def)
  show ?thesis
    unfolding run using k1 k2 by simp
qed

theorem empty_resolution_ends_cycle_witness:
  "getUrlsToBackup 1 offlineEnv (sampleSite (Some ''https://example.com/sitemap.xml'') None)
     (resumeAt 25 100)
     = Returned [] \<lparr>kv = kv (resumeAt 25 100), fetchLog = [''https://example.com/sitemap.xml'']\<rparr> \<and>
   kvGet (kv (resumeAt 25 100)) (progressKey (siteId (sampleSite (Some ''https://example.com/sitemap.xml'') None)))
     = Some (JsonText (progressJson 25 100 ''2026-02-21T23:00:00.000Z'')) \<and>
   (\<exists>r w'. performSiteBackup 1 offlineEnv (sampleSite (Some ''https://example.com/sitemap.xml'') None)
              (continueOpts 25) (resumeAt 25 100) = Returned r w' \<and>
            totalUrls r = 0 \<and> \<not> hasMore r \<and>
            kvGet (kv w') (progressKey (siteId (sampleSite (Some ''https://example.com/sitemap.xml'') None))) = None)"
proof -
  let ?cfg = "sampleSite (Some ''https://example.com/sitemap.xml'') None"
  have a: "getUrlsToBackup 1 offlineEnv ?cfg (resumeAt 25 100)
     = Returned [] \<lparr>kv = kv (resumeAt 25 100), fetchLog = [''https://example.com/sitemap.xml'']\<rparr>"
    by code_simp
  have b: "kvGet (kv (resumeAt 25 100)) (progressKey (siteId ?cfg))
     = Some (JsonText (progressJson 25 100 ''2026-02-21T23:00:00.000Z''))"
    by code_simp
  from empty_resolution_ends_cycle [OF a b, of "continueOpts 25"]
  have "\<exists>r w'. performSiteBackup 1 offlineEnv ?cfg (continueOpts 25) (resumeAt 25 100) = Returned r w' \<and>
            totalUrls r = 0 \<and> \<not> hasMore r \<and> kvGet (kv w') (progressKey (siteId ?cfg)) = None"
    by blast
  with a b show ?thesis by (intro conjI)
qed

subsection \<open>Fetching a batch of pages\<close>

lemma fetchLog_put [simp]: "fetchLog (put k v w) = fetchLog w"
  by (simp add: put_def)

lemma fetchLog_del [simp]: "fetchLog (del k w) = fetchLog w"
  by (simp add: del_def)

lemma fetchLog_storeBackups [simp]: "fetchLog (storeBackups E site rs w) = fetchLog w"
  by (induction rs arbitrary: w) (simp_all add: Let_def split: option.splits)

lemma fetchLog_foldl_del: "fetchLog (foldl (\<lambda>w' key. del key w') w ks) = fetchLog w"
  by (induction ks arbitrary: w) simp_all

lemma fetchLog_cleanupOldBackups [simp]: "fetchLog (cleanupOldBackups E site days w) = fetchLog w"
  by (simp add: cleanupOldBackups_def Let_def fetchLog_foldl_del)

lemma fetchLog_progress [simp]:
  "fetchLog (saveBatchProgress site next n t w) = fetchLog w"
  "fetchLog (clearBatchProgress site w) = fetchLog w"
  "fetchLog (setFullScanState site d t n w) = fetchLog w"
  "fetchLog (recordSitemapState E site resp x w) = fetchLog w"
  by (simp_all add: saveBatchProgress_def clearBatchProgress_def setFullScanState_def
      recordSitemapState_def)

lemma followRedirects_none:
  "\<not> redirected resp \<Longrightarrow> followRedirects E u resp hops w = (Inr (resp, hops), w)"
  by (subst followRedirects.simps) simp

lemma performFetch_ok:
  assumes "pageOk E u"
  shows "\<exists>fr. performFetch E u options w = (Inr fr, w\<lparr>fetchLog := fetchLog w @ [u]\<rparr>) \<and> frUrl fr = u"
proof -
  from assms obtain resp where
    f: "fetch E \<lparr>reqUrl = u, reqHeaders = pageHeaders, redirectManual = False\<rparr> = Inr resp"
    and o: "ok resp" "\<not> redirected resp"
    by (auto simp: pageOk_def split: sum.splits)
  show ?thesis
    using f o by (simp add: performFetch_def doFetch_def followRedirects_none)
qed

lemma fetchUrlWithRetries_ok:
  assumes "pageOk E u"
  shows "\<exists>r. fetchUrlWithRetries E u options patterns w = (r, w\<lparr>fetchLog := fetchLog w @ [u]\<rparr>)
             \<and> success r \<and> url r = u"
proof -
  from performFetch_ok [OF assms, of options w] obtain fr where
    "performFetch E u options w = (Inr fr, w\<lparr>fetchLog := fetchLog w @ [u]\<rparr>)" "frUrl fr = u"
    by blast
  then show ?thesis by (simp add: fetchUrlWithRetries_def)
qed

lemma fetchChunk_ok:
  assumes "\<forall>u \<in> set us. pageOk E u"
  shows "\<exists>rs. fetchChunk E options patterns us w = (rs, w\<lparr>fetchLog := fetchLog w @ us\<rparr>)
              \<and> length rs = length us \<and> (\<forall>r \<in> set rs. success r)"
  using assms
proof (induction us arbitrary: w)
  case Nil
  then show ?case by simp
next
  case (Cons u us)
  from Cons.prems have "pageOk E u" by simp
  from fetchUrlWithRetries_ok [OF this, of options patterns w] obtain r where
    r: "fetchUrlWithRetries E u options patterns w = (r, w\<lparr>fetchLog := fetchLog w @ [u]\<rparr>)"
       "success r" by blast
  from Cons.IH [of "w\<lparr>fetchLog := fetchLog w @ [u]\<rparr>"] Cons.prems obtain rs where
    rs: "fetchChunk E options patterns us (w\<lparr>fetchLog := fetchLog w @ [u]\<rparr>)
           = (rs, w\<lparr>fetchLog := fetchLog w @ u # us\<rparr>)"
        "length rs = length us" "\<forall>r \<in> set rs. success r" by auto
  from r rs show ?case by simp
qed

lemma fetchLoop_ok:
  assumes "\<forall>u \<in> set us. pageOk E u" and "0 < c"
  shows "\<exists>rs. fetchLoop E options patterns us c i acc w
               = Returned (acc @ rs) (w\<lparr>fetchLog := fetchLog w @ drop i us\<rparr>)
              \<and> length rs = length us - i \<and> (\<forall>r \<in> set rs. success r)"
  using assms
proof (induction E options patterns us c i acc w rule: fetchLoop.induct)
  case (1 E options patterns us c i acc w)
  show ?case
  proof (cases "i < length us")
    case False
    then show ?thesis by (subst fetchLoop.simps) simp
  next
    case True
    let ?chunkUrls = "take c (drop i us)"
    have "\<forall>u \<in> set ?chunkUrls. pageOk E u"
      using "1.prems"(1) by (meson in_set_dropD in_set_takeD)
    from fetchChunk_ok [OF this, of options patterns w] obtain rs1 where
      ch: "fetchChunk E options patterns ?chunkUrls w
             = (rs1, w\<lparr>fetchLog := fetchLog w @ ?chunkUrls\<rparr>)"
          "length rs1 = length ?chunkUrls" "\<forall>r \<in> set rs1. success r" by blast
    from "1.IH" [OF True _ refl] "1.prems" ch(1) obtain rs2 where
      rest: "fetchLoop E options patterns us c (i + c) (acc @ rs1)
               (w\<lparr>fetchLog := fetchLog w @ ?chunkUrls\<rparr>)
             = Returned ((acc @ rs1) @ rs2)
                 (w\<lparr>fetchLog := (fetchLog w @ ?chunkUrls) @ drop (i + c) us\<rparr>)"
            "length rs2 = length us - (i + c)" "\<forall>r \<in> set rs2. success r"
      by fastforce
    have log: "?chunkUrls @ drop (i + c) us = drop i us"
      by (metis add.commute append_take_drop_id drop_drop)
    have "fetchLoop E options patterns us c i acc w
            = Returned (acc @ rs1 @ rs2) (w\<lparr>fetchLog := fetchLog w @ drop i us\<rparr>)"
      using True "1.prems"(2) ch(1) rest(1) log
      by (subst fetchLoop.simps) (simp add: Let_def)
    moreover have "length (rs1 @ rs2) = length us - i"
      using ch(2) rest(2) True by (simp add: min_def)
    moreover have "\<forall>r \<in> set (rs1 @ rs2). success r" using ch(3) rest(3) by auto
    ultimately show ?thesis by blast
  qed
qed

lemma fetchUrlsWithConcurrency_ok:
  assumes "\<forall>u \<in> set us. pageOk E u" and "0 < concurrency options"
  shows "\<exists>rs. fetchUrlsWithConcurrency E us options patterns w
               = Returned rs (w\<lparr>fetchLog := fetchLog w @ us\<rparr>)
              \<and> length rs = length us \<and> (\<forall>r \<in> set rs. success r)"
  using fetchLoop_ok [OF assms(1), of "min (concurrency options) 5" options patterns 0 "[]" w] assms(2)
  by (simp add: fetchUrlsWithConcurrency_def)

lemma processBatch_ok:
  assumes pages: "\<forall>u \<in> set (slice us offset (offset + bsize)). pageOk E u"
      and conc: "0 < concurrency (fetchOpts cfg)"
  shows "\<exists>r w'. processBatch E cfg offset bsize us w = Returned r w' \<and>
           fetchLog w' = fetchLog w @ slice us offset (offset + bsize) \<and>
           totalUrls r = length us \<and>
           processedInBatch r = length (slice us offset (offset + bsize)) \<and>
           (hasMore r \<longleftrightarrow> slice us offset (offset + bsize) \<noteq> [] \<and>
              offset + int (length (slice us offset (offset + bsize))) < int (length us))"
proof (cases "slice us offset (offset + bsize) = []")
  case True
  then show ?thesis by (simp add: processBatch_def)
next
  case False
  from fetchUrlsWithConcurrency_ok [OF pages conc, of "ignorePatterns (threshold cfg)" w]
  obtain rs where
    "fetchUrlsWithConcurrency E (slice us offset (offset + bsize)) (fetchOpts cfg)
        (ignorePatterns (threshold cfg)) w
       = Returned rs (w\<lparr>fetchLog := fetchLog w @ slice us offset (offset + bsize)\<rparr>)"
    by blast
  with False show ?thesis by (simp add: processBatch_def Let_def)
qed

lemma truthyLocs_map_Some: "[] \<notin> set us \<Longrightarrow> truthyLocs (map Some us) = us"
  by (induction us) (auto simp: truthyLocs_def List.map_filter_def)

lemma parseSitemap_flat:
  assumes "fetch E \<lparr>reqUrl = s, reqHeaders = [], redirectManual = False\<rparr> = Inr resp"
      and "ok resp" and "parseXml E (respBody resp) = Some (UrlSet (map Some pages))"
      and "[] \<notin> set pages"
  shows "\<exists>w'. parseSitemap (Suc depth) E site s w = Returned pages w' \<and>
              fetchLog w' = fetchLog w @ [s]"
  using assms by (simp add: doFetch_def Let_def truthyLocs_map_Some)

lemma getUrlsToBackup_flat:
  assumes "urls cfg = None" and "sitemapUrl cfg = Some s" and "s \<noteq> []"
      and "fetch E \<lparr>reqUrl = s, reqHeaders = [], redirectManual = False\<rparr> = Inr resp"
      and "ok resp" and "parseXml E (respBody resp) = Some (UrlSet (map Some pages))"
      and "[] \<notin> set pages" and "applyExclusions E cfg pages = pages"
  shows "\<exists>w'. getUrlsToBackup (Suc depth) E cfg w = Returned pages w' \<and>
              fetchLog w' = fetchLog w @ [s]"
proof -
  from parseSitemap_flat [OF assms(4-7), of depth "siteId cfg" w] obtain w' where
    "parseSitemap (Suc depth) E (siteId cfg) s w = Returned pages w'"
    "fetchLog w' = fetchLog w @ [s]" by blast
  then show ?thesis using assms(1-3,8) by (simp add: getUrlsToBackup_def)
qed

lemma slice_front:
  assumes "0 < b" shows "slice us 0 (0 + b) = take (nat b) us"
  using assms by (simp add: slice_def relIndex_def Let_def min_def)

lemma effectiveBatchSize_Some:
  "optBatchSize opts = Some b \<Longrightarrow> b \<le> 30 \<Longrightarrow> effectiveBatchSize opts = b"
  by (simp add: effectiveBatchSize_def MAX_BATCH_SIZE_def)

text \<open>
  C5. The code does not behave as claimed: on the first run over a flat sitemap of more
  than 100 URLs it fetches the first batch of pages and reports every URL of the sitemap
  as its total, with more to come.
\<close>

theorem large_sitemap_is_backfilled:
  assumes cfg: "urls cfg = None" "sitemapUrl cfg = Some s" "s \<noteq> []"
      and first: "kvGet (kv w) (fullScanKey (siteId cfg)) = None"
                 "kvGet (kv w) (progressKey (siteId cfg)) = None"
      and sitemap: "fetch E \<lparr>reqUrl = s, reqHeaders = [], redirectManual = False\<rparr> = Inr resp"
                   "ok resp" "parseXml E (respBody resp) = Some (UrlSet (map Some pages))"
                   "[] \<notin> set pages"
      and large: "100 < length pages"
      and keep: "applyExclusions E cfg pages = pages"
      and pagesOk: "\<forall>u \<in> set pages. pageOk E u"
      and conc: "0 < concurrency (fetchOpts cfg)"
      and opts: "continueFromLast opts" "optBatchOffset opts = None"
                "optBatchSize opts = Some b" "0 < b" "b \<le> 30"
  shows "\<exists>r w'. performSiteBackup (Suc depth) E cfg opts w = Returned r w' \<and>
           batchSummary r = (nat b, length pages, True) \<and>
           fetchLog w' = fetchLog w @ s # take (nat b) pages"
proof -
  have so: "savedOffset w (siteId cfg) = None" using first(2) by (simp add: savedOffset_def)
  have st: "startOffset opts cfg w = 0"
    using so opts(2) by (simp add: startOffset_def loadedOffset_def)
  have a: "alreadyScanned E cfg opts w = (False, w)"
    using first(1) by (simp add: alreadyScanned_def fullScanIsToday_def)
  from getUrlsToBackup_flat [OF cfg sitemap keep, of depth w] obtain w1 where
    g: "getUrlsToBackup (Suc depth) E cfg w = Returned pages w1" "fetchLog w1 = fetchLog w @ [s]"
    by blast
  have sl: "slice pages 0 (0 + b) = take (nat b) pages" using opts(4) by (rule slice_front)
  have "\<forall>u \<in> set (slice pages 0 (0 + b)). pageOk E u"
    unfolding sl using pagesOk by (meson in_set_takeD)
  from processBatch_ok [OF this conc, of w1] obtain r w' where
    p: "processBatch E cfg 0 b pages w1 = Returned r w'"
       "fetchLog w' = fetchLog w1 @ slice pages 0 (0 + b)"
       "totalUrls r = length pages"
       "processedInBatch r = length (slice pages 0 (0 + b))"
       "hasMore r \<longleftrightarrow> slice pages 0 (0 + b) \<noteq> [] \<and>
          0 + int (length (slice pages 0 (0 + b))) < int (length pages)"
    by blast
  have len: "length (take (nat b) pages) = nat b" using large opts(5) by simp
  have run: "performSiteBackup (Suc depth) E cfg opts w = Returned r w'"
    using a g(1) st p(1) effectiveBatchSize_Some [OF opts(3) opts(5)]
    by (simp add: performSiteBackup_def)
  have "batchSummary r = (nat b, length pages, True)"
    using p(3,4,5) len large opts(4,5) unfolding sl by (auto simp: batchSummary_def)
  moreover have "fetchLog w' = fetchLog w @ s # take (nat b) pages"
    using p(2) g(2) sl by simp
  ultimately show ?thesis using run by blast
qed

text \<open>
  C4. The code does not behave as claimed: when the full scan for today is complete, the
  stored sitemap state has no validators, and the new sitemap body (same \<^verbatim>\<open>loc\<close>
  entries, other \<^verbatim>\<open>lastmod\<close> values) has another hash than the stored one, the
  invocation does not short-circuit: it fetches the sitemap twice, then the pages of the
  first batch, and reports all URLs.
\<close>

theorem changed_lastmod_is_rescanned:
  assumes cfg: "urls cfg = None" "sitemapUrl cfg = Some s" "s \<noteq> []"
      and scanned: "fullScanIsToday E w (siteId cfg)"
                   "kvGet (kv w) (progressKey (siteId cfg)) = None"
      and stored: "kvGet (kv w) (sitemapStateKey (siteId cfg))
                     = Some (JsonText (JObj [(''contentHash'', JStr h), (''checkedAt'', JStr t)]))"
      and sitemap: "fetch E \<lparr>reqUrl = s, reqHeaders = [], redirectManual = False\<rparr> = Inr resp"
                   "ok resp" "parseXml E (respBody resp) = Some (UrlSet (map Some pages))"
                   "[] \<notin> set pages"
      and differs: "sha256 E (respBody resp) \<noteq> h"
      and keep: "applyExclusions E cfg pages = pages"
      and pagesOk: "\<forall>u \<in> set pages. pageOk E u"
      and conc: "0 < concurrency (fetchOpts cfg)"
      and opts: "continueFromLast opts" "optBatchOffset opts = None"
                "optBatchSize opts = Some b" "0 < b" "b \<le> 30"
  shows "\<exists>r w'. performSiteBackup (Suc depth) E cfg opts w = Returned r w' \<and>
           totalUrls r = length pages \<and>
           processedInBatch r = length (take (nat b) pages) \<and>
           fetchLog w' = fetchLog w @ s # s # take (nat b) pages"
proof -
  have so: "savedOffset w (siteId cfg) = None" using scanned(2) by (simp add: savedOffset_def)
  have st: "startOffset opts cfg w = 0"
    using so opts(2) by (simp add: startOffset_def loadedOffset_def)
  let ?w1 = "recordSitemapState E (siteId cfg) resp (respBody resp)
               (w\<lparr>fetchLog := fetchLog w @ [s]\<rparr>)"
  have n304: "respStatus resp \<noteq> 304" using sitemap(2) by (auto simp: ok_def)
  have h: "hasSitemapChanged E (siteId cfg) s w = (True, ?w1)"
    using stored sitemap(1,2) differs n304
    by (simp add: hasSitemapChanged_def condHeader_def doFetch_def Let_def)
  have a: "alreadyScanned E cfg opts w = (False, ?w1)"
    using scanned(1) so st opts(1) cfg h
    by (simp add: alreadyScanned_def loadedOffset_def)
  from getUrlsToBackup_flat [OF cfg sitemap keep, of depth ?w1] obtain w2 where
    g: "getUrlsToBackup (Suc depth) E cfg ?w1 = Returned pages w2"
       "fetchLog w2 = fetchLog ?w1 @ [s]"
    by blast
  have sl: "slice pages 0 (0 + b) = take (nat b) pages" using opts(4) by (rule slice_front)
  have "\<forall>u \<in> set (slice pages 0 (0 + b)). pageOk E u"
    unfolding sl using pagesOk by (meson in_set_takeD)
  from processBatch_ok [OF this conc, of w2] obtain r w' where
    p: "processBatch E cfg 0 b pages w2 = Returned r w'"
       "fetchLog w' = fetchLog w2 @ slice pages 0 (0 + b)"
       "totalUrls r = length pages"
       "processedInBatch r = length (slice pages 0 (0 + b))"
    by blast
  have run: "performSiteBackup (Suc depth) E cfg opts w = Returned r w'"
    using a g(1) st p(1) effectiveBatchSize_Some [OF opts(3) opts(5)]
    by (simp add: performSiteBackup_def)
  have "fetchLog w' = fetchLog w @ s # s # take (nat b) pages"
    using p(2) g(2) sl by simp
  with run p(3,4) sl show ?thesis by auto
qed

lemma applyExclusions_no_match:
  "regExpTest E = (\<lambda>p u. Some False) \<Longrightarrow> applyExclusions E cfg us = us"
  by (simp add: applyExclusions_def Let_def list_ex_iff)

lemma webEnv_pageOk:
  "(\<And>req. \<exists>b. web req = Inr (okResponse b)) \<Longrightarrow> pageOk (webEnv web xml) u"
proof -
  assume a: "\<And>req. \<exists>b. web req = Inr (okResponse b)"
  obtain b where "web \<lparr>reqUrl = u, reqHeaders = pageHeaders, redirectManual = False\<rparr>
                  = Inr (okResponse b)" using a by blast
  then show ?thesis by (simp add: pageOk_def webEnv_def okResponse_def ok_def)
qed

theorem large_sitemap_is_backfilled_witness:
  "100 < length manyPages \<and>
   (\<exists>r w'. performSiteBackup 1 largeEnv largeSite (continueOpts 25) emptyWorld = Returned r w' \<and>
            batchSummary r = (25, 101, True) \<and>
            fetchLog w' = sitemapA # take 25 manyPages)"
proof -
  let ?resp = "okResponse ''urlset-101''"
  have cfg: "urls largeSite = None" "sitemapUrl largeSite = Some sitemapA" "sitemapA \<noteq> []"
    by (simp_all add: largeSite_def sampleSite_def sitemapA_def)
  have first: "kvGet (kv emptyWorld) (fullScanKey (siteId largeSite)) = None"
              "kvGet (kv emptyWorld) (progressKey (siteId largeSite)) = None"
    by (simp_all add: emptyWorld_def kvGet_def)
  have sitemap: "fetch largeEnv \<lparr>reqUrl = sitemapA, reqHeaders = [], redirectManual = False\<rparr>
                   = Inr ?resp"
                "ok ?resp"
                "parseXml largeEnv (respBody ?resp) = Some (UrlSet (map Some manyPages))"
                "[] \<notin> set manyPages"
    by (auto simp: largeEnv_def webEnv_def okResponse_def ok_def manyPages_def)
  have large: "100 < length manyPages" by (simp add: manyPages_def)
  have keep: "applyExclusions largeEnv largeSite manyPages = manyPages"
    by (rule applyExclusions_no_match) (simp add: largeEnv_def webEnv_def)
  have pagesOk: "\<forall>u \<in> set manyPages. pageOk largeEnv u"
    unfolding largeEnv_def by (intro ballI webEnv_pageOk) auto
  have conc: "0 < concurrency (fetchOpts largeSite)"
    by (simp add: largeSite_def sampleSite_def)
  have opts: "continueFromLast (continueOpts 25)" "optBatchOffset (continueOpts 25) = None"
             "optBatchSize (continueOpts 25) = Some 25" "(0::int) < 25" "(25::int) \<le> 30"
    by (simp_all add: continueOpts_def)
  from large_sitemap_is_backfilled [OF cfg first sitemap large keep pagesOk conc opts, of 0]
  have "\<exists>r w'. performSiteBackup 1 largeEnv largeSite (continueOpts 25) emptyWorld = Returned r w' \<and>
            batchSummary r = (25, 101, True) \<and> fetchLog w' = sitemapA # take 25 manyPages"
    by (simp add: emptyWorld_def manyPages_def)
  with large show ?thesis by (intro conjI)
qed

theorem changed_lastmod_is_rescanned_witness:
  "sha256 (lastmodEnv ''urlset lastmod=00:05'') ''urlset lastmod=00:05'' \<noteq> rev ''urlset lastmod=00:00'' \<and>
   fullScanIsToday (lastmodEnv ''urlset lastmod=00:05'') scannedWorld (siteId sitemapSite) \<and>
   (\<exists>r w'. performSiteBackup 1 (lastmodEnv ''urlset lastmod=00:05'') sitemapSite (continueOpts 25)
              scannedWorld = Returned r w' \<and>
            totalUrls r = 2 \<and> processedInBatch r = 2 \<and>
            fetchLog w' = [sitemapA, sitemapA, ''https://example.com/page1'',
                           ''https://example.com/page2''])"
proof -
  let ?E = "lastmodEnv ''urlset lastmod=00:05''"
  let ?resp = "okResponse ''urlset lastmod=00:05''"
  have cfg: "urls sitemapSite = None" "sitemapUrl sitemapSite = Some sitemapA" "sitemapA \<noteq> []"
    by (simp_all add: sitemapSite_def sampleSite_def sitemapA_def)
  have scanned: "fullScanIsToday ?E scannedWorld (siteId sitemapSite)"
                "kvGet (kv scannedWorld) (progressKey (siteId sitemapSite)) = None"
    by (simp_all add: fullScanIsToday_def scannedWorld_def kvGet_def fullScanKey_def
        progressKey_def sitemapSite_def sampleSite_def fullScanJson_def lastmodEnv_def webEnv_def)
  have stored: "kvGet (kv scannedWorld) (sitemapStateKey (siteId sitemapSite))
     = Some (JsonText (JObj [(''contentHash'', JStr (rev ''urlset lastmod=00:00'')),
                             (''checkedAt'', JStr ''2026-02-22T00:00:00.000Z'')]))"
    by (simp add: scannedWorld_def kvGet_def sitemapStateKey_def sitemapSite_def sampleSite_def)
  have sitemap: "fetch ?E \<lparr>reqUrl = sitemapA, reqHeaders = [], redirectManual = False\<rparr> = Inr ?resp"
                "ok ?resp"
                "parseXml ?E (respBody ?resp) = Some (UrlSet (map Some twoPages))"
                "[] \<notin> set twoPages"
    by (simp_all add: lastmodEnv_def webEnv_def okResponse_def ok_def twoPages_def)
  have differs: "sha256 ?E (respBody ?resp) \<noteq> rev ''urlset lastmod=00:00''"
    by (simp add: lastmodEnv_def webEnv_def okResponse_def)
  have keep: "applyExclusions ?E sitemapSite twoPages = twoPages"
    by (rule applyExclusions_no_match) (simp add: lastmodEnv_def webEnv_def)
  have pagesOk: "\<forall>u \<in> set twoPages. pageOk ?E u"
    unfolding lastmodEnv_def by (intro ballI webEnv_pageOk) auto
  have conc: "0 < concurrency (fetchOpts sitemapSite)"
    by (simp add: sitemapSite_def sampleSite_def)
  have opts: "continueFromLast (continueOpts 25)" "optBatchOffset (continueOpts 25) = None"
             "optBatchSize (continueOpts 25) = Some 25" "(0::int) < 25" "(25::int) \<le> 30"
    by (simp_all add: continueOpts_def)
  from changed_lastmod_is_rescanned
         [OF cfg scanned stored sitemap differs keep pagesOk conc opts, of 0]
  obtain r w' where
    run: "performSiteBackup 1 ?E sitemapSite (continueOpts 25) scannedWorld = Returned r w'" and
    v: "totalUrls r = length twoPages" "processedInBatch r = length (take (nat 25) twoPages)"
       "fetchLog w' = fetchLog scannedWorld @ sitemapA # sitemapA # take (nat 25) twoPages"
    by auto
  have "totalUrls r = 2" "processedInBatch r = 2"
       "fetchLog w' = [sitemapA, sitemapA, ''https://example.com/page1'',
                           ''https://example.com/page2'']"
    using v by (simp_all add: twoPages_def scannedWorld_def)
  with run
  have "\<exists>r w'. performSiteBackup 1 ?E sitemapSite (continueOpts 25) scannedWorld = Returned r w' \<and>
            totalUrls r = 2 \<and> processedInBatch r = 2 \<and>
            fetchLog w' = [sitemapA, sitemapA, ''https://example.com/page1'',
                           ''https://example.com/page2'']"
    by (intro exI conjI)
  moreover have "sha256 ?E ''urlset lastmod=00:05'' \<noteq> rev ''urlset lastmod=00:00''"
    using differs by (simp add: okResponse_def)
  ultimately show ?thesis using scanned(1) by (intro conjI)
qed

subsection \<open>A cyclic sitemap graph\<close>

lemma cycle_step:
  "(\<exists>w'. parseSitemap n cycleEnv site sitemapA w = Running w' \<and>
         length (fetchLog w') = length (fetchLog w) + n) \<and>
   (\<exists>w'. parseSitemap n cycleEnv site sitemapB w = Running w' \<and>
         length (fetchLog w') = length (fetchLog w) + n)"
proof (induction n arbitrary: w)
  case 0
  then show ?case by simp
next
  case (Suc n)
  have ab: "sitemapA \<noteq> sitemapB" by (simp add: sitemapA_def sitemapB_def)
  let ?wa = "recordSitemapState cycleEnv site (okResponse ''index-a'') ''index-a''
               (w\<lparr>fetchLog := fetchLog w @ [sitemapA]\<rparr>)"
  let ?wb = "recordSitemapState cycleEnv site (okResponse ''index-b'') ''index-b''
               (w\<lparr>fetchLog := fetchLog w @ [sitemapB]\<rparr>)"
  have la: "length (fetchLog ?wa) = length (fetchLog w) + 1"
    and lb: "length (fetchLog ?wb) = length (fetchLog w) + 1"
    by (simp_all add: recordSitemapState_def put_def)
  from Suc.IH [of ?wa] obtain w1 where
    b: "parseSitemap n cycleEnv site sitemapB ?wa = Running w1"
       "length (fetchLog w1) = length (fetchLog ?wa) + n" by blast
  from Suc.IH [of ?wb] obtain w2 where
    a: "parseSitemap n cycleEnv site sitemapA ?wb = Running w2"
       "length (fetchLog w2) = length (fetchLog ?wb) + n" by blast
  have "parseSitemap (Suc n) cycleEnv site sitemapA w = Running w1"
    using b(1) ab
    by (simp add: doFetch_def cycleEnv_def webEnv_def okResponse_def ok_def Let_def)
  moreover have "parseSitemap (Suc n) cycleEnv site sitemapB w = Running w2"
    using a(1) ab
    by (simp add: doFetch_def cycleEnv_def webEnv_def okResponse_def ok_def Let_def)
  ultimately show ?case using a(2) b(2) la lb by simp
qed

text \<open>
  C1. On the cyclic sitemap graph the code does not behave as claimed: whatever nesting
  of \<^verbatim>\<open>parseSitemap\<close> calls is followed, the invocation has not returned and has
  fetched a sitemap once for every level of nesting, so the number of fetches has no bound.
\<close>

theorem cyclic_sitemap_never_returns:
  "report (performSiteBackup n cycleEnv sitemapSite (freshOpts 25) emptyWorld)
     = (None, fetchLog (stateAfter (parseSitemap n cycleEnv ''s'' sitemapA emptyWorld))) \<and>
   length (fetchLog (stateAfter (parseSitemap n cycleEnv ''s'' sitemapA emptyWorld))) = n"
proof -
  from cycle_step [of n "''s''" emptyWorld] obtain w' where
    r: "parseSitemap n cycleEnv ''s'' sitemapA emptyWorld = Running w'" and
    l: "length (fetchLog w') = n" by (auto simp: emptyWorld_def)
  have a: "alreadyScanned cycleEnv sitemapSite (freshOpts 25) emptyWorld = (False, emptyWorld)"
    by (simp add: alreadyScanned_def freshOpts_def)
  have g: "getUrlsToBackup n cycleEnv sitemapSite emptyWorld = Running w'"
    using r by (simp add: getUrlsToBackup_def sitemapSite_def sampleSite_def sitemapA_def)
  show ?thesis
    using r l a g by (simp add: performSiteBackup_def)
qed

subsection \<open>Normalization\<close>

lemma isSpace_chars [simp]:
  "isSpace (CHR '' '')" "\<not> isSpace (CHR ''>'')" "\<not> isSpace (CHR ''<'')"
  by (simp_all add: isSpace_def spaceChars_def)



lemma collapseSpaces_nonspace: "\<not> isSpace c \<Longrightarrow> collapseSpaces (c # cs) = c # collapseSpaces cs"
  by simp























subsection \<open>Strings that no noise pattern matches\<close>


lemma lacks_suffix: "lacks S (pre @ s) \<Longrightarrow> lacks S s"
  by (simp add: lacks_def)






lemma needs_seqs: "needs S (seqs rs) = list_ex (needs S) rs"
  by (induction rs) (simp_all add: seqs_def)

lemma needs_exactly: "0 < n \<Longrightarrow> needs S r \<Longrightarrow> needs S (exactly n r)"
  by (cases n) simp_all





subsection \<open>The punctuation stage of the white-space cleanup\<close>


lemma isPunct_chars [simp]:
  "\<not> isPunct (CHR '' '')" "\<not> isPunct (CHR ''>'')" "\<not> isPunct (CHR ''<'')"
  by (simp_all add: isPunct_def)








lemma tight_Cons:
  "tight (a # b # cs) \<longleftrightarrow> \<not> (isSpace a \<and> isPunct b) \<and> \<not> (isPunct a \<and> isSpace b) \<and> tight (b # cs)"
  by simp













subsection \<open>Determinism and fixed points of normalization\<close>






end
